theory Spec2Isabelle
  imports Complex_Main "HOL-Library.Word" "HOL-Library.Sublist"
begin

section \<open>Decoded JSON values\<close>

text \<open>
  \<^verbatim>\<open>encoding/json\<close> decodes a document into \<^verbatim>\<open>interface{}\<close> values of six
  dynamic types: \<^verbatim>\<open>nil\<close>, \<^verbatim>\<open>bool\<close>, \<^verbatim>\<open>float64\<close>, \<^verbatim>\<open>string\<close>,
  \<^verbatim>\<open>[]interface{}\<close> and \<^verbatim>\<open>map[string]interface{}\<close>.

  A \<^verbatim>\<open>float64\<close> produced by the decoder is finite; it is represented by
  the rational number it denotes (negative zero is zero). A Go map is represented by the
  list of its entries, looked up with \<open>map_of\<close>; the keys of a Go map are pairwise
  distinct, and a nil map behaves as the empty one when it is read.
\<close>

datatype json =
    JNull
  | JBool bool
  | JNum rat
  | JStr string
  | JArr "json list"
  | JObj "(string \<times> json) list"

section \<open>The Go standard library\<close>

text \<open>
  The functions of \<^verbatim>\<open>regexp\<close> and \<^verbatim>\<open>fmt\<close> that the program calls and whose
  text is not part of the repository are parameters of the model:
  \<^item> \<open>regexp_Compile\<close> is \<^verbatim>\<open>regexp.Compile\<close>: the error or the compiled expression;
  \<^item> \<open>regexp_MatchString\<close> is the method \<^verbatim>\<open>MatchString\<close> of a non-nil \<^verbatim>\<open>Regexp\<close>;
  \<^item> \<open>Sprintf_g\<close> is \<^verbatim>\<open>fmt.Sprintf("%g", x)\<close> on a \<^verbatim>\<open>float64\<close>;
  \<^item> \<open>Sprintf_v\<close> is \<^verbatim>\<open>fmt.Sprintf("%v", x)\<close> on a slice or a map;
  \<^item> \<open>int64_out_of_range\<close> is the result of the conversion \<^verbatim>\<open>int64(x)\<close> for a
    \<^verbatim>\<open>float64\<close> whose integer part does not fit 64 bits, which the language
    leaves to the implementation.
\<close>

record 're gostd =
  regexp_Compile :: "string \<Rightarrow> string + 're"
  regexp_MatchString :: "'re \<Rightarrow> string \<Rightarrow> bool"
  Sprintf_g :: "rat \<Rightarrow> string"
  Sprintf_v :: "json \<Rightarrow> string"
  int64_out_of_range :: "rat \<Rightarrow> 64 word"

subsection \<open>Package strings\<close>

definition strings_HasPrefix :: "string \<Rightarrow> string \<Rightarrow> bool" where
  "strings_HasPrefix s p = prefix p s"

definition strings_HasSuffix :: "string \<Rightarrow> string \<Rightarrow> bool" where
  "strings_HasSuffix s p = suffix p s"

text \<open>\<^verbatim>\<open>strings.Split(s, sep)\<close> for a separator of one byte: one more piece than
  there are separators in \<open>s\<close>, empty pieces included.\<close>

fun strings_Split :: "string \<Rightarrow> char \<Rightarrow> string list" where
  "strings_Split [] sep = [[]]"
| "strings_Split (c # cs) sep =
     (if c = sep then [] # strings_Split cs sep
      else (case strings_Split cs sep of
              [] \<Rightarrow> [[c]]
            | x # xs \<Rightarrow> (c # x) # xs))"

text \<open>\<^verbatim>\<open>strings.ReplaceAll(s, old, new)\<close>: the non-overlapping occurrences of
  \<open>old\<close> are replaced from left to right; an empty \<open>old\<close> matches before every
  byte and at the end.\<close>

function strings_ReplaceAll :: "string \<Rightarrow> string \<Rightarrow> string \<Rightarrow> string" where
  "strings_ReplaceAll s old new =
     (if old = [] then new @ concat (map (\<lambda>c. c # new) s)
      else if s = [] then []
      else if prefix old s then new @ strings_ReplaceAll (drop (length old) s) old new
      else hd s # strings_ReplaceAll (tl s) old new)"
  by pat_completeness auto
termination
  by (relation "measure (\<lambda>(s, old, new). length s)") auto

declare strings_ReplaceAll.simps [simp del]

subsection \<open>Numbers\<close>

text \<open>The digits of a natural number, most significant first.\<close>

definition digit :: "nat \<Rightarrow> char" where
  "digit d = ''0123456789'' ! d"

fun decimal :: "nat \<Rightarrow> string" where
  "decimal n =
     (if n < 10 then [digit n]
      else decimal (n div 10) @ [digit (n mod 10)])"

declare decimal.simps [simp del]

text \<open>\<^verbatim>\<open>fmt.Sprintf("%d", i)\<close> on an \<^verbatim>\<open>int64\<close>.\<close>

definition Sprintf_d :: "64 word \<Rightarrow> string" where
  "Sprintf_d i = (if sint i < 0 then CHR ''-'' # decimal (nat (- sint i)) else decimal (nat (sint i)))"

text \<open>The conversion \<^verbatim>\<open>int64(x)\<close> of a \<^verbatim>\<open>float64\<close>: the fraction is discarded
  (truncation towards zero).\<close>

definition int64_of_float64 :: "'re gostd \<Rightarrow> rat \<Rightarrow> 64 word" where
  "int64_of_float64 G x =
     (let t = (if 0 \<le> x then \<lfloor>x\<rfloor> else \<lceil>x\<rceil>)
      in if - (2 ^ 63) \<le> t \<and> t < 2 ^ 63 then word_of_int t else int64_out_of_range G x)"

text \<open>The number of binary digits of a natural number.\<close>

fun bitlen :: "nat \<Rightarrow> nat" where
  "bitlen n = (if n = 0 then 0 else Suc (bitlen (n div 2)))"

declare bitlen.simps [simp del]

text \<open>The conversion \<^verbatim>\<open>float64(i)\<close> of an \<^verbatim>\<open>int64\<close>: the nearest number with a
  significand of 53 bits, a tie going to the even significand.\<close>

definition round53 :: "nat \<Rightarrow> nat" where
  "round53 a =
     (let k = bitlen a - 53; q = a div 2 ^ k; r = a mod 2 ^ k
      in if 2 ^ k < 2 * r \<or> (2 * r = 2 ^ k \<and> odd q) then (q + 1) * 2 ^ k else q * 2 ^ k)"

definition float64_of_int64 :: "64 word \<Rightarrow> rat" where
  "float64_of_int64 i =
     (if sint i < 0 then - of_nat (round53 (nat (- sint i))) else of_nat (round53 (nat (sint i))))"

section \<open>pod.go\<close>

text \<open>
  \<^verbatim>\<open>
  func stringify(v interface{}) string {
      switch val := v.(type) {
      case string:  return val
      case float64:
          if val == float64(int64(val)) { return fmt.Sprintf("%d", int64(val)) }
          return fmt.Sprintf("%g", val)
      case bool:    return fmt.Sprintf("%t", val)
      case nil:     return ""
      default:      return fmt.Sprintf("%v", val)
      }
  }
  \<close>
\<close>

fun stringify :: "'re gostd \<Rightarrow> json \<Rightarrow> string" where
  "stringify G (JStr val) = val"
| "stringify G (JNum val) =
     (if val = float64_of_int64 (int64_of_float64 G val)
      then Sprintf_d (int64_of_float64 G val)
      else Sprintf_g G val)"
| "stringify G (JBool val) = (if val then ''true'' else ''false'')"
| "stringify G JNull = []"
| "stringify G val = Sprintf_v G val"

record PodData =
  Name :: string
  Namespace :: string
  RawJSON :: string
  Parsed :: "(string \<times> json) list"

text \<open>
  \<^verbatim>\<open>
  func (p *PodData) ResolvePath(path string) (interface{}, bool) {
      parts := strings.Split(path, ".")
      var current interface{} = p.Parsed
      for _, part := range parts {
          m, ok := current.(map[string]interface{})
          if !ok { return nil, false }
          current, ok = m[part]
          if !ok { return nil, false }
      }
      return current, true
  }
  \<close>
  The loop is \<open>walk\<close>; a failed resolution returns \<open>(JNull, False)\<close>.
\<close>

fun walk :: "json \<Rightarrow> string list \<Rightarrow> json \<times> bool" where
  "walk current [] = (current, True)"
| "walk current (part # parts) =
     (case current of
        JObj m \<Rightarrow>
          (case map_of m part of
             None \<Rightarrow> (JNull, False)
           | Some v \<Rightarrow> walk v parts)
      | _ \<Rightarrow> (JNull, False))"

definition ResolvePath :: "PodData \<Rightarrow> string \<Rightarrow> json \<times> bool" where
  "ResolvePath p path = walk (JObj (Parsed p)) (strings_Split path CHR ''.'')"

section \<open>config.go\<close>

text \<open>The compiled expressions \<open>keyRe\<close> and \<open>valueRe\<close> are pointers, nil until
  \<open>ValidateConfig\<close> has stored them.\<close>

record 're Condition =
  Path :: string
  KeyPattern :: string
  ValuePattern :: string
  Invert :: bool
  keyRe :: "'re option"
  valueRe :: "'re option"

record 're ItemFilters =
  Conditions :: "'re Condition list"

record TemplateVar =
  tvPath :: string
  URLAppend :: string

record 're MenuItem =
  Description :: string
  Title :: string
  URL :: string
  Filters :: "'re ItemFilters"
  TemplateVars :: "TemplateVar list"

record 're Config =
  MenuItems :: "'re MenuItem list"

text \<open>
  \<^verbatim>\<open>
  func anchorPattern(p string) string {
      if !strings.HasPrefix(p, "^") { p = "^" + p }
      if !strings.HasSuffix(p, "$") { p = p + "$" }
      return p
  }
  \<close>
\<close>

definition anchorPattern :: "string \<Rightarrow> string" where
  "anchorPattern p =
     (let p1 = (if \<not> strings_HasPrefix p ''^'' then ''^'' @ p else p)
      in if \<not> strings_HasSuffix p1 ''$'' then p1 @ ''$'' else p1)"

subsection \<open>ValidateConfig\<close>

text \<open>The errors of \<^verbatim>\<open>ValidateConfig\<close>, one constructor for each
  \<^verbatim>\<open>fmt.Errorf\<close> of the function, with the arguments of its format.\<close>

datatype config_error =
    NoMenuItems
  | EmptyTitle nat
  | EmptyURL nat string
  | EmptyConditionPath nat string nat
  | InvalidKeyPattern nat string nat string string
  | InvalidValuePattern nat string nat string string
  | EmptyTemplateVarPath nat string nat
  | EmptyURLAppend nat string nat

text \<open>\<^verbatim>\<open>ValidateConfig\<close> takes a pointer and writes the defaults and the compiled
  expressions into the conditions in place: each function below returns the value as it
  stands when the function returns, together with the error (\<open>None\<close> is \<^verbatim>\<open>nil\<close>).
  This is the body of the loop over \<^verbatim>\<open>item.Filters.Conditions\<close>.\<close>

definition validate_condition ::
  "'re gostd \<Rightarrow> nat \<Rightarrow> string \<Rightarrow> nat \<Rightarrow> 're Condition \<Rightarrow> 're Condition \<times> config_error option" where
  "validate_condition G i title j cond =
     (if Path cond = [] then (cond, Some (EmptyConditionPath i title j))
      else
        let cond1 = (if KeyPattern cond = [] then cond\<lparr>KeyPattern := ''.*''\<rparr> else cond);
            cond2 = (if ValuePattern cond1 = [] then cond1\<lparr>ValuePattern := ''.*''\<rparr> else cond1)
        in case regexp_Compile G (anchorPattern (KeyPattern cond2)) of
             Inl err \<Rightarrow> (cond2, Some (InvalidKeyPattern i title j (KeyPattern cond2) err))
           | Inr kre \<Rightarrow>
               let cond3 = cond2\<lparr>keyRe := Some kre\<rparr>
               in case regexp_Compile G (anchorPattern (ValuePattern cond3)) of
                    Inl err \<Rightarrow> (cond3, Some (InvalidValuePattern i title j (ValuePattern cond3) err))
                  | Inr vre \<Rightarrow> (cond3\<lparr>valueRe := Some vre\<rparr>, None))"

fun validate_conditions ::
  "'re gostd \<Rightarrow> nat \<Rightarrow> string \<Rightarrow> nat \<Rightarrow> 're Condition list \<Rightarrow> 're Condition list \<times> config_error option" where
  "validate_conditions G i title j [] = ([], None)"
| "validate_conditions G i title j (cond # conds) =
     (case validate_condition G i title j cond of
        (cond', Some e) \<Rightarrow> (cond' # conds, Some e)
      | (cond', None) \<Rightarrow>
          (case validate_conditions G i title (Suc j) conds of
             (conds', e) \<Rightarrow> (cond' # conds', e)))"

fun validate_templateVars :: "nat \<Rightarrow> string \<Rightarrow> nat \<Rightarrow> TemplateVar list \<Rightarrow> config_error option" where
  "validate_templateVars i title j [] = None"
| "validate_templateVars i title j (tv # tvs) =
     (if tvPath tv = [] then Some (EmptyTemplateVarPath i title j)
      else if URLAppend tv = [] then Some (EmptyURLAppend i title j)
      else validate_templateVars i title (Suc j) tvs)"

definition validate_item ::
  "'re gostd \<Rightarrow> nat \<Rightarrow> 're MenuItem \<Rightarrow> 're MenuItem \<times> config_error option" where
  "validate_item G i item =
     (if Title item = [] then (item, Some (EmptyTitle i))
      else if URL item = [] then (item, Some (EmptyURL i (Title item)))
      else
        (case validate_conditions G i (Title item) 0 (Conditions (Filters item)) of
           (conds', Some e) \<Rightarrow> (item\<lparr>Filters := (Filters item)\<lparr>Conditions := conds'\<rparr>\<rparr>, Some e)
         | (conds', None) \<Rightarrow>
             (item\<lparr>Filters := (Filters item)\<lparr>Conditions := conds'\<rparr>\<rparr>,
              validate_templateVars i (Title item) 0 (TemplateVars item))))"

fun validate_items ::
  "'re gostd \<Rightarrow> nat \<Rightarrow> 're MenuItem list \<Rightarrow> 're MenuItem list \<times> config_error option" where
  "validate_items G i [] = ([], None)"
| "validate_items G i (item # items) =
     (case validate_item G i item of
        (item', Some e) \<Rightarrow> (item' # items, Some e)
      | (item', None) \<Rightarrow>
          (case validate_items G (Suc i) items of
             (items', e) \<Rightarrow> (item' # items', e)))"

definition ValidateConfig :: "'re gostd \<Rightarrow> 're Config \<Rightarrow> 're Config \<times> config_error option" where
  "ValidateConfig G cfg =
     (if length (MenuItems cfg) = 0 then (cfg, Some NoMenuItems)
      else
        (case validate_items G 0 (MenuItems cfg) of
           (items', e) \<Rightarrow> (cfg\<lparr>MenuItems := items'\<rparr>, e)))"

subsection \<open>Evaluate\<close>

text \<open>A call of \<^verbatim>\<open>MatchString\<close> through a pointer: on a nil \<^verbatim>\<open>*Regexp\<close> the
  program panics, which is the result \<open>None\<close> here and in the functions that call it.\<close>

definition MatchString :: "'re gostd \<Rightarrow> 're option \<Rightarrow> string \<Rightarrow> bool option" where
  "MatchString G re s = (case re of None \<Rightarrow> None | Some r \<Rightarrow> Some (regexp_MatchString G r s))"

text \<open>
  \<^verbatim>\<open>
  func (c *Condition) matchMap(m map[string]interface{}) bool {
      for k, v := range m {
          if c.keyRe.MatchString(k) && c.valueRe.MatchString(stringify(v)) { return true }
      }
      return false
  }
  \<close>
\<close>

fun matchMap :: "'re gostd \<Rightarrow> 're Condition \<Rightarrow> (string \<times> json) list \<Rightarrow> bool option" where
  "matchMap G c [] = Some False"
| "matchMap G c ((k, v) # m) =
     (case MatchString G (keyRe c) k of
        None \<Rightarrow> None
      | Some False \<Rightarrow> matchMap G c m
      | Some True \<Rightarrow>
          (case MatchString G (valueRe c) (stringify G v) of
             None \<Rightarrow> None
           | Some True \<Rightarrow> Some True
           | Some False \<Rightarrow> matchMap G c m))"

text \<open>
  \<^verbatim>\<open>
  func (c *Condition) matchArray(arr []interface{}) bool {
      for _, v := range arr {
          if c.valueRe.MatchString(stringify(v)) { return true }
      }
      return false
  }
  \<close>
\<close>

fun matchArray :: "'re gostd \<Rightarrow> 're Condition \<Rightarrow> json list \<Rightarrow> bool option" where
  "matchArray G c [] = Some False"
| "matchArray G c (v # arr) =
     (case MatchString G (valueRe c) (stringify G v) of
        None \<Rightarrow> None
      | Some True \<Rightarrow> Some True
      | Some False \<Rightarrow> matchArray G c arr)"

text \<open>
  \<^verbatim>\<open>
  func (c *Condition) Evaluate(pd *PodData) bool {
      val, ok := pd.ResolvePath(c.Path)
      var matched bool
      if !ok || val == nil {
          matched = false
      } else {
          switch v := val.(type) {
          case map[string]interface{}: matched = c.matchMap(v)
          case []interface{}:          matched = c.matchArray(v)
          default:                     matched = c.valueRe.MatchString(stringify(val))
          }
      }
      if c.Invert { return !matched }
      return matched
  }
  \<close>
  The pod is a pointer; \<^verbatim>\<open>ResolvePath\<close> reads \<^verbatim>\<open>p.Parsed\<close>, so a nil pod panics.
\<close>

definition Evaluate_matched :: "'re gostd \<Rightarrow> 're Condition \<Rightarrow> PodData \<Rightarrow> bool option" where
  "Evaluate_matched G c pd =
     (case ResolvePath pd (Path c) of
        (val, ok) \<Rightarrow>
          if \<not> ok \<or> val = JNull then Some False
          else
            (case val of
               JObj v \<Rightarrow> matchMap G c v
             | JArr v \<Rightarrow> matchArray G c v
             | _ \<Rightarrow> MatchString G (valueRe c) (stringify G val)))"

definition Evaluate :: "'re gostd \<Rightarrow> 're Condition \<Rightarrow> PodData option \<Rightarrow> bool option" where
  "Evaluate G c pd =
     (case pd of
        None \<Rightarrow> None
      | Some p \<Rightarrow>
          (case Evaluate_matched G c p of
             None \<Rightarrow> None
           | Some matched \<Rightarrow> if Invert c then Some (\<not> matched) else Some matched))"

subsection \<open>MatchesPod\<close>

text \<open>
  \<^verbatim>\<open>
  func (item MenuItem) MatchesPod(pd *PodData) bool {
      for i := range item.Filters.Conditions {
          if !item.Filters.Conditions[i].Evaluate(pd) { return false }
      }
      return true
  }
  \<close>
\<close>

fun MatchesPod_loop :: "'re gostd \<Rightarrow> 're Condition list \<Rightarrow> PodData option \<Rightarrow> bool option" where
  "MatchesPod_loop G [] pd = Some True"
| "MatchesPod_loop G (c # cs) pd =
     (case Evaluate G c pd of
        None \<Rightarrow> None
      | Some False \<Rightarrow> Some False
      | Some True \<Rightarrow> MatchesPod_loop G cs pd)"

definition MatchesPod :: "'re gostd \<Rightarrow> 're MenuItem \<Rightarrow> PodData option \<Rightarrow> bool option" where
  "MatchesPod G item pd = MatchesPod_loop G (Conditions (Filters item)) pd"

subsection \<open>ResolveURL\<close>

text \<open>
  \<^verbatim>\<open>
  func (tv TemplateVar) resolve(pd *PodData) string {
      if pd == nil { return "" }
      val, ok := pd.ResolvePath(tv.Path)
      if !ok { return "" }
      return stringify(val)
  }
  \<close>
\<close>

definition resolve :: "'re gostd \<Rightarrow> TemplateVar \<Rightarrow> PodData option \<Rightarrow> string" where
  "resolve G tv pd =
     (case pd of
        None \<Rightarrow> []
      | Some p \<Rightarrow>
          (case ResolvePath p (tvPath tv) of
             (val, ok) \<Rightarrow> if \<not> ok then [] else stringify G val))"

text \<open>
  \<^verbatim>\<open>
  func (item MenuItem) ResolveURL(pd *PodData) string {
      url := item.URL
      for _, tv := range item.TemplateVars {
          val := tv.resolve(pd)
          if val == "" { continue }
          appendStr := strings.ReplaceAll(tv.URLAppend, "$VALUE", val)
          url += appendStr
      }
      return url
  }
  \<close>
\<close>

fun ResolveURL_loop :: "'re gostd \<Rightarrow> string \<Rightarrow> TemplateVar list \<Rightarrow> PodData option \<Rightarrow> string" where
  "ResolveURL_loop G url [] pd = url"
| "ResolveURL_loop G url (tv # tvs) pd =
     (let val = resolve G tv pd
      in if val = [] then ResolveURL_loop G url tvs pd
         else ResolveURL_loop G (url @ strings_ReplaceAll (URLAppend tv) ''$VALUE'' val) tvs pd)"

definition ResolveURL :: "'re gostd \<Rightarrow> 're MenuItem \<Rightarrow> PodData option \<Rightarrow> string" where
  "ResolveURL G item pd = ResolveURL_loop G (URL item) (TemplateVars item) pd"

section \<open>pod.go: FilterMenuItems\<close>

text \<open>
  \<^verbatim>\<open>
  func FilterMenuItems(items []MenuItem, pd *PodData) []MenuItem {
      var filtered []MenuItem
      for _, item := range items {
          if pd == nil {
              if len(item.Filters.Conditions) == 0 { filtered = append(filtered, item) }
              continue
          }
          if item.MatchesPod(pd) { filtered = append(filtered, item) }
      }
      return filtered
  }
  \<close>
\<close>

fun FilterMenuItems_loop ::
  "'re gostd \<Rightarrow> 're MenuItem list \<Rightarrow> 're MenuItem list \<Rightarrow> PodData option \<Rightarrow> 're MenuItem list option" where
  "FilterMenuItems_loop G filtered [] pd = Some filtered"
| "FilterMenuItems_loop G filtered (item # items) pd =
     (if pd = None then
        (if length (Conditions (Filters item)) = 0
         then FilterMenuItems_loop G (filtered @ [item]) items pd
         else FilterMenuItems_loop G filtered items pd)
      else
        (case MatchesPod G item pd of
           None \<Rightarrow> None
         | Some True \<Rightarrow> FilterMenuItems_loop G (filtered @ [item]) items pd
         | Some False \<Rightarrow> FilterMenuItems_loop G filtered items pd))"

definition FilterMenuItems :: "'re gostd \<Rightarrow> 're MenuItem list \<Rightarrow> PodData option \<Rightarrow> 're MenuItem list option" where
  "FilterMenuItems G items pd = FilterMenuItems_loop G [] items pd"

section \<open>A fragment of package regexp\<close>

text \<open>
  The theorems on \<open>Evaluate\<close> and \<open>ValidateConfig\<close> hold for every \<open>gostd\<close>. What
  anchoring achieves depends on how \<^verbatim>\<open>regexp\<close> reads the anchored text, so this
  section models the expressions built from single characters, \<^verbatim>\<open>.\<close>, a backslash
  before a punctuation character, \<^verbatim>\<open>^\<close>, \<^verbatim>\<open>$\<close>, a star after a character,
  concatenation and \<^verbatim>\<open>|\<close>, over ASCII text and without flags. As in the syntax of
  \<^verbatim>\<open>regexp/syntax\<close>, the star binds tighter than concatenation, which binds tighter
  than alternation; \<^verbatim>\<open>^\<close> is the start of the text, \<^verbatim>\<open>$\<close> its end, and
  \<^verbatim>\<open>.\<close> is any character but a newline. Every other source is outside the
  fragment and has no parse here: \<open>re_Compile\<close> answers it with an error, as
  \<^verbatim>\<open>regexp.Compile\<close> answers a source it rejects. The examples compile sources of the
  fragment and one source that \<^verbatim>\<open>regexp\<close> rejects, \<^verbatim>\<open>[invalid\<close>.
\<close>

datatype atom = Lit char | AnyChar | BeginText | EndText

datatype token = TAtom atom | TStar | TBar

type_synonym piece = "atom \<times> bool"

text \<open>An expression is the list of its alternatives, an alternative the list of its
  pieces, a piece an atom and whether a star follows it.\<close>

type_synonym regex = "piece list list"

fun tokens :: "string \<Rightarrow> token list option" where
  "tokens [] = Some []"
| "tokens (c # cs) =
     (if c = CHR 0x5C then
        (case cs of
           [] \<Rightarrow> None
         | d # ds \<Rightarrow>
             if d \<in> set ''.^$|+?()[]{}-'' \<or> d = CHR ''*'' \<or> d = CHR 0x5C
             then map_option ((#) (TAtom (Lit d))) (tokens ds)
             else None)
      else if c \<in> set ''()[]{}+?'' then None
      else if c = CHR ''.'' then map_option ((#) (TAtom AnyChar)) (tokens cs)
      else if c = CHR ''^'' then map_option ((#) (TAtom BeginText)) (tokens cs)
      else if c = CHR ''$'' then map_option ((#) (TAtom EndText)) (tokens cs)
      else if c = CHR ''*'' then map_option ((#) TStar) (tokens cs)
      else if c = CHR ''|'' then map_option ((#) TBar) (tokens cs)
      else map_option ((#) (TAtom (Lit c))) (tokens cs))"

definition cons_piece :: "piece \<Rightarrow> regex option \<Rightarrow> regex option" where
  "cons_piece p r = (case r of Some (b # bs) \<Rightarrow> Some ((p # b) # bs) | _ \<Rightarrow> None)"

fun build :: "token list \<Rightarrow> regex option" where
  "build [] = Some [[]]"
| "build (TBar # ts) = map_option ((#) []) (build ts)"
| "build (TStar # ts) = None"
| "build (TAtom a # TStar # ts) =
     (if a = BeginText \<or> a = EndText then None else cons_piece (a, True) (build ts))"
| "build (TAtom a # ts) = cons_piece (a, False) (build ts)"

definition re_Compile :: "string \<Rightarrow> string + regex" where
  "re_Compile src =
     (case tokens src of
        None \<Rightarrow> Inl ''error parsing regexp''
      | Some ts \<Rightarrow>
          (case build ts of
             None \<Rightarrow> Inl ''error parsing regexp''
           | Some r \<Rightarrow> Inr r))"

text \<open>A matcher is at a state: whether it stands at the start of the text, and the text
  that is left.\<close>

fun atom_accepts :: "atom \<Rightarrow> char \<Rightarrow> bool" where
  "atom_accepts (Lit c) d = (d = c)"
| "atom_accepts AnyChar d = (d \<noteq> CHR 0x0A)"
| "atom_accepts BeginText d = False"
| "atom_accepts EndText d = False"

fun atom_step :: "atom \<Rightarrow> bool \<times> string \<Rightarrow> (bool \<times> string) list" where
  "atom_step BeginText (b, s) = (if b then [(b, s)] else [])"
| "atom_step EndText (b, s) = (if s = [] then [(b, s)] else [])"
| "atom_step a (b, []) = []"
| "atom_step a (b, d # ds) = (if atom_accepts a d then [(False, ds)] else [])"

fun star_steps :: "atom \<Rightarrow> bool \<Rightarrow> string \<Rightarrow> (bool \<times> string) list" where
  "star_steps a b [] = [(b, [])]"
| "star_steps a b (d # ds) = (b, d # ds) # (if atom_accepts a d then star_steps a False ds else [])"

fun piece_steps :: "piece \<Rightarrow> bool \<times> string \<Rightarrow> (bool \<times> string) list" where
  "piece_steps (a, False) st = atom_step a st"
| "piece_steps (a, True) (b, s) = star_steps a b s"

fun seq_steps :: "piece list \<Rightarrow> bool \<times> string \<Rightarrow> (bool \<times> string) list" where
  "seq_steps [] st = [st]"
| "seq_steps (p # ps) st = concat (map (seq_steps ps) (piece_steps p st))"

definition match_here :: "regex \<Rightarrow> bool \<times> string \<Rightarrow> bool" where
  "match_here r st = list_ex (\<lambda>alt. seq_steps alt st \<noteq> []) r"

text \<open>\<^verbatim>\<open>MatchString\<close> reports whether the text contains a match: the expression is
  tried at every position.\<close>

fun search :: "regex \<Rightarrow> bool \<Rightarrow> string \<Rightarrow> bool" where
  "search r b [] = match_here r (b, [])"
| "search r b (c # cs) = (match_here r (b, c # cs) \<or> search r False cs)"

definition re_MatchString :: "regex \<Rightarrow> string \<Rightarrow> bool" where
  "re_MatchString r s = search r True s"

text \<open>The text as a whole belongs to the language of the expression: some alternative
  consumes all of it.\<close>

definition whole_match :: "regex \<Rightarrow> string \<Rightarrow> bool" where
  "whole_match r s = list_ex (\<lambda>alt. list_ex (\<lambda>st. snd st = []) (seq_steps alt (True, s))) r"

section \<open>Notions used to state the properties\<close>

subsection \<open>Paths\<close>

text \<open>\<^verbatim>\<open>strings.Join\<close>, the inverse of \<^verbatim>\<open>strings.Split\<close>.\<close>

fun strings_Join :: "string list \<Rightarrow> string \<Rightarrow> string" where
  "strings_Join [] sep = []"
| "strings_Join [x] sep = x"
| "strings_Join (x # y # ys) sep = x @ sep @ strings_Join (y # ys) sep"

text \<open>\<open>reaches v ks r\<close>: starting at \<open>v\<close>, every key of \<open>ks\<close> in turn is a key
  of the map reached so far, and the value under the last key is \<open>r\<close>.\<close>

inductive reaches :: "json \<Rightarrow> string list \<Rightarrow> json \<Rightarrow> bool" where
  reaches_Nil: "reaches v [] v"
| reaches_Cons: "map_of m k = Some v \<Longrightarrow> reaches v ks r \<Longrightarrow> reaches (JObj m) (k # ks) r"

subsection \<open>Numbers\<close>

text \<open>The rationals that are finite values of \<^verbatim>\<open>float64\<close>.\<close>

definition is_float64 :: "rat \<Rightarrow> bool" where
  "is_float64 x \<longleftrightarrow>
     (\<exists>m e :: int. \<bar>m\<bar> < 2 ^ 53 \<and> - 1074 \<le> e \<and> e \<le> 971 \<and> x = of_int m * 2 powi e)"

text \<open>The number that a text of decimal digits denotes.\<close>

definition decimal_value :: "string \<Rightarrow> nat" where
  "decimal_value s = foldl (\<lambda>n c. 10 * n + (of_char c - 48)) 0 s"

definition decimal_text :: "int \<Rightarrow> string" where
  "decimal_text n = (if n < 0 then CHR ''-'' # decimal (nat (- n)) else decimal (nat n))"

subsection \<open>The rule of a condition\<close>

definition compiled :: "'re Condition \<Rightarrow> bool" where
  "compiled c \<longleftrightarrow> keyRe c \<noteq> None \<and> valueRe c \<noteq> None"

text \<open>The base match of a condition with the compiled patterns \<open>kr\<close> and \<open>vr\<close> on the
  result \<open>(val, found)\<close> of resolving its path, by the kind of the value.\<close>

definition base_match :: "'re gostd \<Rightarrow> 're \<Rightarrow> 're \<Rightarrow> json \<times> bool \<Rightarrow> bool" where
  "base_match G kr vr res =
     (case res of
        (val, found) \<Rightarrow>
          if \<not> found then False
          else
            (case val of
               JNull \<Rightarrow> False
             | JObj m \<Rightarrow>
                 (\<exists>(k, v) \<in> set m.
                    regexp_MatchString G kr k \<and> regexp_MatchString G vr (stringify G v))
             | JArr xs \<Rightarrow> (\<exists>v \<in> set xs. regexp_MatchString G vr (stringify G v))
             | _ \<Rightarrow> regexp_MatchString G vr (stringify G val)))"

subsection \<open>The fragment of a template variable\<close>

definition fragment :: "'re gostd \<Rightarrow> PodData option \<Rightarrow> TemplateVar \<Rightarrow> string" where
  "fragment G pd tv =
     (if resolve G tv pd = [] then []
      else strings_ReplaceAll (URLAppend tv) ''$VALUE'' (resolve G tv pd))"

subsection \<open>The checks of validation\<close>

definition pattern_or_default :: "string \<Rightarrow> string" where
  "pattern_or_default p = (if p = [] then ''.*'' else p)"

text \<open>The error of one condition, of one template variable and of one entry, and the
  first error of a list in the order of its elements.\<close>

definition condition_error ::
  "'re gostd \<Rightarrow> nat \<Rightarrow> string \<Rightarrow> nat \<Rightarrow> 're Condition \<Rightarrow> config_error option" where
  "condition_error G i title j c =
     (if Path c = [] then Some (EmptyConditionPath i title j)
      else
        (case regexp_Compile G (anchorPattern (pattern_or_default (KeyPattern c))) of
           Inl err \<Rightarrow> Some (InvalidKeyPattern i title j (pattern_or_default (KeyPattern c)) err)
         | Inr kre \<Rightarrow>
             (case regexp_Compile G (anchorPattern (pattern_or_default (ValuePattern c))) of
                Inl err \<Rightarrow>
                  Some (InvalidValuePattern i title j (pattern_or_default (ValuePattern c)) err)
              | Inr vre \<Rightarrow> None)))"

definition templateVar_error :: "nat \<Rightarrow> string \<Rightarrow> nat \<Rightarrow> TemplateVar \<Rightarrow> config_error option" where
  "templateVar_error i title j tv =
     (if tvPath tv = [] then Some (EmptyTemplateVarPath i title j)
      else if URLAppend tv = [] then Some (EmptyURLAppend i title j)
      else None)"

fun first_error :: "(nat \<Rightarrow> 'a \<Rightarrow> config_error option) \<Rightarrow> nat \<Rightarrow> 'a list \<Rightarrow> config_error option" where
  "first_error f n [] = None"
| "first_error f n (x # xs) =
     (case f n x of Some e \<Rightarrow> Some e | None \<Rightarrow> first_error f (Suc n) xs)"

definition item_error :: "'re gostd \<Rightarrow> nat \<Rightarrow> 're MenuItem \<Rightarrow> config_error option" where
  "item_error G i item =
     (if Title item = [] then Some (EmptyTitle i)
      else if URL item = [] then Some (EmptyURL i (Title item))
      else
        (case first_error (condition_error G i (Title item)) 0 (Conditions (Filters item)) of
           Some e \<Rightarrow> Some e
         | None \<Rightarrow> first_error (templateVar_error i (Title item)) 0 (TemplateVars item)))"

definition compiles :: "'re gostd \<Rightarrow> string \<Rightarrow> bool" where
  "compiles G src = (case regexp_Compile G (anchorPattern src) of Inl err \<Rightarrow> False | Inr r \<Rightarrow> True)"

definition condition_ok :: "'re gostd \<Rightarrow> 're Condition \<Rightarrow> bool" where
  "condition_ok G c \<longleftrightarrow>
     Path c \<noteq> [] \<and> compiles G (pattern_or_default (KeyPattern c))
     \<and> compiles G (pattern_or_default (ValuePattern c))"

definition templateVar_ok :: "TemplateVar \<Rightarrow> bool" where
  "templateVar_ok tv \<longleftrightarrow> tvPath tv \<noteq> [] \<and> URLAppend tv \<noteq> []"

definition item_ok :: "'re gostd \<Rightarrow> 're MenuItem \<Rightarrow> bool" where
  "item_ok G item \<longleftrightarrow>
     Title item \<noteq> [] \<and> URL item \<noteq> []
     \<and> list_all (condition_ok G) (Conditions (Filters item))
     \<and> list_all templateVar_ok (TemplateVars item)"

subsection \<open>What validation may change\<close>

text \<open>A condition after validation, against the condition before: the path and the
  invert flag are the same, a pattern is the same or the default in place of the empty
  one, a compiled expression is the same or the one compiled from the anchored pattern.\<close>

definition stored :: "'re gostd \<Rightarrow> string \<Rightarrow> 're option \<Rightarrow> bool" where
  "stored G src re =
     (case re of None \<Rightarrow> False | Some r \<Rightarrow> regexp_Compile G (anchorPattern src) = Inr r)"

definition condition_frame :: "'re gostd \<Rightarrow> 're Condition \<Rightarrow> 're Condition \<Rightarrow> bool" where
  "condition_frame G c c' \<longleftrightarrow>
     Path c' = Path c \<and> Invert c' = Invert c
     \<and> (KeyPattern c' = KeyPattern c \<or> KeyPattern c' = pattern_or_default (KeyPattern c))
     \<and> (ValuePattern c' = ValuePattern c \<or> ValuePattern c' = pattern_or_default (ValuePattern c))
     \<and> (keyRe c' = keyRe c \<or> stored G (KeyPattern c') (keyRe c'))
     \<and> (valueRe c' = valueRe c \<or> stored G (ValuePattern c') (valueRe c'))"

definition item_frame :: "'re gostd \<Rightarrow> 're MenuItem \<Rightarrow> 're MenuItem \<Rightarrow> bool" where
  "item_frame G item item' \<longleftrightarrow>
     Title item' = Title item \<and> Description item' = Description item \<and> URL item' = URL item
     \<and> TemplateVars item' = TemplateVars item
     \<and> list_all2 (condition_frame G) (Conditions (Filters item)) (Conditions (Filters item'))"

text \<open>A condition and an entry that validation has gone through without an error.\<close>

definition validated_condition :: "'re gostd \<Rightarrow> 're Condition \<Rightarrow> 're Condition \<Rightarrow> bool" where
  "validated_condition G c c' \<longleftrightarrow>
     condition_frame G c c'
     \<and> KeyPattern c' = pattern_or_default (KeyPattern c)
     \<and> ValuePattern c' = pattern_or_default (ValuePattern c)
     \<and> stored G (KeyPattern c') (keyRe c') \<and> stored G (ValuePattern c') (valueRe c')"

definition validated_item :: "'re gostd \<Rightarrow> 're MenuItem \<Rightarrow> 're MenuItem \<Rightarrow> bool" where
  "validated_item G item item' \<longleftrightarrow>
     item_frame G item item'
     \<and> list_all2 (validated_condition G) (Conditions (Filters item)) (Conditions (Filters item'))"

section \<open>Examples\<close>

text \<open>A library for the examples: the expressions of the fragment, the conversion of a
  number out of range as the amd64 instruction gives it (the smallest \<^verbatim>\<open>int64\<close>), and
  \<^verbatim>\<open>%g\<close> and \<^verbatim>\<open>%v\<close> tabulated on a few values: \<^verbatim>\<open>fmt.Sprintf("%g", 1e20)\<close>
  is \<^verbatim>\<open>1e+20\<close>. No example depends on what they print for a value outside the
  table.\<close>

definition example_std :: "regex gostd" where
  "example_std =
     \<lparr>regexp_Compile = re_Compile,
      regexp_MatchString = re_MatchString,
      Sprintf_g = (\<lambda>x. if x = 10 ^ 20 then ''1e+20'' else if x = 3 / 2 then ''1.5'' else ''?''),
      Sprintf_v = (\<lambda>v. if v = JArr [] then ''[]'' else if v = JObj [] then ''map[]'' else ''?''),
      int64_out_of_range = (\<lambda>x. - (2 ^ 63))\<rparr>"

text \<open>A pod after \<^verbatim>\<open>podNginxProd\<close> of \<^verbatim>\<open>config_test.go\<close>: its labels, its node
  and its phase, with a null, a number and an array of strings added and the annotations
  and the arrays of objects left out.\<close>

definition podNginxProd :: PodData where
  "podNginxProd =
     \<lparr>Name = ''test-pod'', Namespace = ''default'', RawJSON = [],
      Parsed =
        [(''apiVersion'', JStr ''v1''),
         (''kind'', JStr ''Pod''),
         (''metadata'', JObj
            [(''name'', JStr ''nginx-abc123''),
             (''namespace'', JStr ''production''),
             (''labels'', JObj
                [(''app'', JStr ''nginx''), (''env'', JStr ''production''),
                 (''team'', JStr ''platform'')]),
             (''deletionTimestamp'', JNull)]),
         (''spec'', JObj
            [(''nodeName'', JStr ''prod-pool-node-01''),
             (''priority'', JNum 0),
             (''tolerations'', JArr [JStr ''spot'', JStr ''gpu'']),
             (''restartPolicy'', JStr ''Always'')]),
         (''status'', JObj [(''phase'', JStr ''Running'')])]\<rparr>"

text \<open>Conditions as the configuration file gives them, before validation, and as
  \<^verbatim>\<open>ValidateConfig\<close> leaves them (the helper \<^verbatim>\<open>mustCompileCondition\<close> of the
  tests).\<close>

definition uncompiled :: "string \<Rightarrow> string \<Rightarrow> string \<Rightarrow> bool \<Rightarrow> regex Condition" where
  "uncompiled path kp vp negate =
     \<lparr>Path = path, KeyPattern = kp, ValuePattern = vp, Invert = negate,
      keyRe = None, valueRe = None\<rparr>"

definition example_condition :: "string \<Rightarrow> string \<Rightarrow> string \<Rightarrow> bool \<Rightarrow> regex Condition" where
  "example_condition path kp vp negate =
     fst (validate_condition example_std 0 ''test'' 0 (uncompiled path kp vp negate))"

definition example_item ::
  "string \<Rightarrow> string \<Rightarrow> regex Condition list \<Rightarrow> TemplateVar list \<Rightarrow> regex MenuItem" where
  "example_item title url conds tvs =
     \<lparr>Description = [], Title = title, URL = url, Filters = \<lparr>Conditions = conds\<rparr>,
      TemplateVars = tvs\<rparr>"

text \<open>The configuration of \<^verbatim>\<open>TestFilterMenuItems_WithPod\<close>.\<close>

definition example_config :: "regex Config" where
  "example_config =
     \<lparr>MenuItems =
        [example_item ''Matches'' ''http://a''
           [uncompiled ''metadata.labels'' ''app'' ''nginx'' False] [],
         example_item ''No match'' ''http://b''
           [uncompiled ''metadata.labels'' ''app'' ''redis'' False] [],
         example_item ''Always'' ''http://c'' [] []]\<rparr>"

definition example_items :: "regex MenuItem list" where
  "example_items = MenuItems (fst (ValidateConfig example_std example_config))"

text \<open>A configuration whose second entry has a key pattern that does not compile (the
  pattern of \<^verbatim>\<open>TestValidateConfig_InvalidRegex\<close>), after a condition that is in order
  and before a template variable without a path; its third entry has no title.\<close>

definition bad_config :: "regex Config" where
  "bad_config =
     \<lparr>MenuItems =
        [example_item ''Matches'' ''http://a''
           [uncompiled ''metadata.labels'' [] ''nginx'' False] [],
         example_item ''Broken'' ''http://b''
           [uncompiled ''status.phase'' [] [] True,
            uncompiled ''metadata.labels'' ''[invalid'' [] False]
           [\<lparr>tvPath = [], URLAppend = ''?x=$VALUE''\<rparr>],
         example_item [] [] [uncompiled ''spec.nodeName'' [] [] False] []]\<rparr>"

section \<open>Path resolution\<close>

lemma Split_not_Nil: "strings_Split s sep \<noteq> []"
  by (induction s) (auto split: list.splits)

lemma Join_Split: "strings_Join (strings_Split s sep) [sep] = s"
proof (induction s)
  case Nil
  show ?case by simp
next
  case (Cons c cs)
  obtain x xs where sp: "strings_Split cs sep = x # xs"
    using Split_not_Nil [of cs sep] by (cases "strings_Split cs sep") auto
  show ?case
  proof (cases "c = sep")
    case True
    with Cons sp show ?thesis by simp
  next
    case False
    with Cons sp show ?thesis by (cases xs) auto
  qed
qed

lemma Split_no_sep: "x \<in> set (strings_Split s sep) \<Longrightarrow> sep \<notin> set x"
  by (induction s arbitrary: x) (auto split: if_splits list.splits)

lemma walk_reaches: "walk cur ps = (v, True) \<longleftrightarrow> reaches cur ps v"
proof
  show "walk cur ps = (v, True) \<Longrightarrow> reaches cur ps v"
  proof (induction ps arbitrary: cur)
    case Nil
    then show ?case by (simp add: reaches_Nil)
  next
    case (Cons p ps)
    then show ?case
      by (auto split: json.splits option.splits intro: reaches_Cons)
  qed
next
  show "reaches cur ps v \<Longrightarrow> walk cur ps = (v, True)"
    by (induction rule: reaches.induct) auto
qed

lemma walk_not_found: "\<not> snd (walk cur ps) \<Longrightarrow> fst (walk cur ps) = JNull"
  by (induction ps arbitrary: cur) (auto split: json.splits option.splits)

text \<open>
  C5, as the claim states it, fails: \<^verbatim>\<open>ResolvePath\<close> does not reject an empty path
  or an empty segment. \<^verbatim>\<open>strings.Split("", ".")\<close> is the single empty segment, and an
  empty segment is looked up like any other key; \<^verbatim>\<open>{"": 1}\<close> has that key, so the
  empty path resolves in it, and \<^verbatim>\<open>a..b\<close> resolves in
  \<^verbatim>\<open>{"a": {"": {"b": true}}}\<close>.
\<close>

theorem ResolvePath_empty_segment_found:
  "ResolvePath \<lparr>Name = ''pod'', Namespace = [], RawJSON = [], Parsed = [([], JNum 1)]\<rparr> []
     = (JNum 1, True)
   \<and> ResolvePath
       \<lparr>Name = ''pod'', Namespace = [], RawJSON = [],
        Parsed = [(''a'', JObj [([], JObj [(''b'', JBool True)])])]\<rparr> ''a..b''
     = (JBool True, True)"
  by (simp add: ResolvePath_def)

text \<open>
  C5, amended: \<^verbatim>\<open>ResolvePath\<close> splits the path at every \<^verbatim>\<open>.\<close> into segments
  (joining the segments with \<^verbatim>\<open>.\<close> gives the path back and no segment holds a
  \<^verbatim>\<open>.\<close>; the empty path is the single empty segment) and walks them from left to
  right, looking each segment up, an empty one too, as a key of the current map. It
  returns a value with found=true exactly when every segment in turn is a key of the map
  reached so far, the value being the one under the last segment, an explicit null
  included; as soon as the current value is not a map or lacks the key it returns nil
  with found=false. So the empty path resolves exactly when the root has the empty
  string as a key.
\<close>

theorem ResolvePath_walks_segments:
  "strings_Join (strings_Split path CHR ''.'') ''.'' = path
   \<and> (\<forall>seg \<in> set (strings_Split path CHR ''.''). CHR ''.'' \<notin> set seg)
   \<and> strings_Split [] CHR ''.'' = [[]]
   \<and> (ResolvePath p path = (v, True)
        \<longleftrightarrow> reaches (JObj (Parsed p)) (strings_Split path CHR ''.'') v)
   \<and> (\<not> snd (ResolvePath p path) \<longrightarrow> ResolvePath p path = (JNull, False))
   \<and> ResolvePath p [] =
       (case map_of (Parsed p) [] of None \<Rightarrow> (JNull, False) | Some r \<Rightarrow> (r, True))"
proof -
  have "\<not> snd (ResolvePath p path) \<longrightarrow> ResolvePath p path = (JNull, False)"
    using walk_not_found [of "JObj (Parsed p)" "strings_Split path CHR ''.''"]
    by (auto simp: ResolvePath_def prod_eq_iff)
  moreover have "ResolvePath p [] =
       (case map_of (Parsed p) [] of None \<Rightarrow> (JNull, False) | Some r \<Rightarrow> (r, True))"
    by (simp add: ResolvePath_def split: option.splits)
  ultimately show ?thesis
    using Join_Split [of path "CHR ''.''"] Split_no_sep [of _ path "CHR ''.''"]
    by (simp add: ResolvePath_def walk_reaches)
qed

theorem ResolvePath_walks_segments_witness:
  "reaches (JObj (Parsed podNginxProd)) [''metadata'', ''deletionTimestamp''] JNull
   \<and> ResolvePath podNginxProd ''metadata.labels.app.deep'' = (JNull, False)
   \<and> CHR ''.'' \<notin> set ''deletionTimestamp''"
proof -
  have split: "strings_Split ''metadata.deletionTimestamp'' CHR ''.''
      = [''metadata'', ''deletionTimestamp'']"
    by simp
  have found: "ResolvePath podNginxProd ''metadata.deletionTimestamp'' = (JNull, True)"
    by (simp add: ResolvePath_def podNginxProd_def)
  have missing: "\<not> snd (ResolvePath podNginxProd ''metadata.labels.app.deep'')"
    by (simp add: ResolvePath_def podNginxProd_def)
  from ResolvePath_walks_segments [of "''metadata.deletionTimestamp''" podNginxProd JNull]
  have "reaches (JObj (Parsed podNginxProd)) [''metadata'', ''deletionTimestamp''] JNull
      \<and> CHR ''.'' \<notin> set ''deletionTimestamp''"
    using found split by simp
  moreover from ResolvePath_walks_segments [of "''metadata.labels.app.deep''" podNginxProd JNull]
  have "ResolvePath podNginxProd ''metadata.labels.app.deep'' = (JNull, False)"
    using missing by blast
  ultimately show ?thesis by blast
qed

section \<open>Evaluation of conditions\<close>

lemma matchMap_compiled:
  assumes "keyRe c = Some kr" "valueRe c = Some vr"
  shows "matchMap G c m =
    Some (\<exists>(k, v) \<in> set m. regexp_MatchString G kr k \<and> regexp_MatchString G vr (stringify G v))"
  using assms by (induction m) (auto simp: MatchString_def split: bool.splits)

lemma matchArray_compiled:
  assumes "valueRe c = Some vr"
  shows "matchArray G c arr = Some (\<exists>v \<in> set arr. regexp_MatchString G vr (stringify G v))"
  using assms by (induction arr) (auto simp: MatchString_def split: bool.splits)

lemma Evaluate_matched_compiled:
  assumes "keyRe c = Some kr" "valueRe c = Some vr"
  shows "Evaluate_matched G c pd = Some (base_match G kr vr (ResolvePath pd (Path c)))"
  using assms
  by (cases "ResolvePath pd (Path c)")
     (simp add: Evaluate_matched_def base_match_def matchMap_compiled matchArray_compiled
        MatchString_def split: json.splits)

text \<open>
  C1: for a compiled condition and a record, \<^verbatim>\<open>Evaluate\<close> returns the base match,
  negated when \<open>Invert\<close> is set. The base match is false when the path does not resolve
  or resolves to null; on a map it is true iff some entry has a key matching the key
  pattern and, the same entry, a stringified value matching the value pattern; on a
  sequence iff some element's stringified value matches the value pattern; on a scalar
  iff its stringified value matches the value pattern.
\<close>

theorem Evaluate_dispatch:
  assumes "keyRe c = Some kr" and "valueRe c = Some vr"
  shows "Evaluate G c (Some pd) =
     Some (if Invert c then \<not> base_match G kr vr (ResolvePath pd (Path c))
           else base_match G kr vr (ResolvePath pd (Path c)))"
  using assms by (simp add: Evaluate_def Evaluate_matched_compiled)


theorem Evaluate_dispatch_witness:
  "Evaluate example_std (example_condition ''metadata.labels'' ''app'' ''ngi.*'' True) (Some podNginxProd)
     = Some False
   \<and> Evaluate example_std (example_condition ''spec.tolerations'' [] ''gpu'' False) (Some podNginxProd)
     = Some True"
proof -
  let ?c = "example_condition ''metadata.labels'' ''app'' ''ngi.*'' True"
  let ?d = "example_condition ''spec.tolerations'' [] ''gpu'' False"
  have k: "keyRe ?c = Some [[(BeginText, False), (Lit CHR ''a'', False), (Lit CHR ''p'', False),
      (Lit CHR ''p'', False), (EndText, False)]]"
    by code_simp
  have v: "valueRe ?c = Some [[(BeginText, False), (Lit CHR ''n'', False), (Lit CHR ''g'', False),
      (Lit CHR ''i'', False), (AnyChar, True), (EndText, False)]]"
    by code_simp
  have i: "Invert ?c" by code_simp
  have b: "base_match example_std
      [[(BeginText, False), (Lit CHR ''a'', False), (Lit CHR ''p'', False),
      (Lit CHR ''p'', False), (EndText, False)]]
      [[(BeginText, False), (Lit CHR ''n'', False), (Lit CHR ''g'', False),
      (Lit CHR ''i'', False), (AnyChar, True), (EndText, False)]]
      (ResolvePath podNginxProd (Path ?c))"
    by code_simp
  have k': "keyRe ?d = Some [[(BeginText, False), (AnyChar, True), (EndText, False)]]"
    by code_simp
  have v': "valueRe ?d = Some [[(BeginText, False), (Lit CHR ''g'', False), (Lit CHR ''p'', False),
      (Lit CHR ''u'', False), (EndText, False)]]"
    by code_simp
  have i': "\<not> Invert ?d" by code_simp
  have b': "base_match example_std
      [[(BeginText, False), (AnyChar, True), (EndText, False)]]
      [[(BeginText, False), (Lit CHR ''g'', False), (Lit CHR ''p'', False),
      (Lit CHR ''u'', False), (EndText, False)]]
      (ResolvePath podNginxProd (Path ?d))"
    by code_simp
  show ?thesis
    using Evaluate_dispatch [OF k v, of example_std podNginxProd]
      Evaluate_dispatch [OF k' v', of example_std podNginxProd] i b i' b'
    by simp
qed

lemma matchMap_Invert [simp]: "matchMap G (c\<lparr>Invert := b\<rparr>) m = matchMap G c m"
  by (induction m) (auto split: option.splits bool.splits)

lemma matchArray_Invert [simp]: "matchArray G (c\<lparr>Invert := b\<rparr>) arr = matchArray G c arr"
  by (induction arr) (auto split: option.splits bool.splits)

lemma Evaluate_matched_Invert [simp]:
  "Evaluate_matched G (c\<lparr>Invert := b\<rparr>) p = Evaluate_matched G c p"
  by (simp add: Evaluate_matched_def split: prod.splits json.splits)

lemma Evaluate_matched_total: "compiled c \<Longrightarrow> \<exists>b. Evaluate_matched G c p = Some b"
  using Evaluate_matched_compiled [of c _ _ G p] by (auto simp: compiled_def)

lemma Evaluate_matched_missing:
  "\<not> snd (ResolvePath p (Path c)) \<Longrightarrow> Evaluate_matched G c p = Some False"
  by (cases "ResolvePath p (Path c)") (simp add: Evaluate_matched_def)

text \<open>
  C7: evaluating a condition with \<open>Invert\<close> set yields the negation of evaluating it
  with \<open>Invert\<close> clear: the two calls panic together or return opposite booleans, a
  compiled condition on a record returns, and where the path does not resolve the plain
  condition is false and the inverted one true.
\<close>

theorem Evaluate_invert_negates:
  "Evaluate G (c\<lparr>Invert := True\<rparr>) pd = map_option Not (Evaluate G (c\<lparr>Invert := False\<rparr>) pd)
   \<and> (compiled c \<longrightarrow>
        (\<exists>b. Evaluate G (c\<lparr>Invert := False\<rparr>) (Some p) = Some b
            \<and> Evaluate G (c\<lparr>Invert := True\<rparr>) (Some p) = Some (\<not> b)))
   \<and> (\<not> snd (ResolvePath p (Path c)) \<longrightarrow>
        Evaluate G (c\<lparr>Invert := False\<rparr>) (Some p) = Some False
        \<and> Evaluate G (c\<lparr>Invert := True\<rparr>) (Some p) = Some True)"
proof -
  have "Evaluate G (c\<lparr>Invert := True\<rparr>) pd = map_option Not (Evaluate G (c\<lparr>Invert := False\<rparr>) pd)"
    by (simp add: Evaluate_def split: option.splits)
  moreover have "compiled c \<longrightarrow>
        (\<exists>b. Evaluate G (c\<lparr>Invert := False\<rparr>) (Some p) = Some b
            \<and> Evaluate G (c\<lparr>Invert := True\<rparr>) (Some p) = Some (\<not> b))"
    using Evaluate_matched_total [of c G p] by (auto simp: Evaluate_def)
  moreover have "\<not> snd (ResolvePath p (Path c)) \<longrightarrow>
        Evaluate G (c\<lparr>Invert := False\<rparr>) (Some p) = Some False
        \<and> Evaluate G (c\<lparr>Invert := True\<rparr>) (Some p) = Some True"
    by (simp add: Evaluate_def Evaluate_matched_missing)
  ultimately show ?thesis by blast
qed

theorem Evaluate_invert_negates_witness:
  "Evaluate example_std (example_condition ''metadata.nonexistent'' [] [] True) (Some podNginxProd)
     = Some True
   \<and> (\<exists>b. Evaluate example_std (example_condition ''status.phase'' [] ''Running'' False) (Some podNginxProd) = Some b
        \<and> Evaluate example_std (example_condition ''status.phase'' [] ''Running'' True) (Some podNginxProd) = Some (\<not> b))"
proof -
  let ?c = "example_condition ''metadata.nonexistent'' [] [] False"
  let ?d = "example_condition ''status.phase'' [] ''Running'' False"
  have t: "?c\<lparr>Invert := True\<rparr> = example_condition ''metadata.nonexistent'' [] [] True"
    by code_simp
  have f: "?d\<lparr>Invert := False\<rparr> = ?d"
    by code_simp
  have t': "?d\<lparr>Invert := True\<rparr> = example_condition ''status.phase'' [] ''Running'' True"
    by code_simp
  have m: "\<not> snd (ResolvePath podNginxProd (Path ?c))"
    by code_simp
  have c: "compiled ?d"
    by code_simp
  show ?thesis
    using Evaluate_invert_negates [of example_std ?c "Some podNginxProd" podNginxProd] m
      Evaluate_invert_negates [of example_std ?d "Some podNginxProd" podNginxProd] c
    unfolding t f t' by blast
qed

section \<open>Matching an entry\<close>

lemma Evaluate_total: "compiled c \<Longrightarrow> \<exists>b. Evaluate G c (Some p) = Some b"
  using Evaluate_matched_total [of c G p] by (auto simp: Evaluate_def)

lemma MatchesPod_loop_compiled:
  "list_all compiled cs \<Longrightarrow>
   MatchesPod_loop G cs (Some p) = Some (list_all (\<lambda>c. Evaluate G c (Some p) = Some True) cs)"
proof (induction cs)
  case Nil
  show ?case by simp
next
  case (Cons c cs)
  then obtain b where "Evaluate G c (Some p) = Some b"
    using Evaluate_total [of c G p] by auto
  with Cons show ?case by (cases b) auto
qed

lemma MatchesPod_loop_short_circuit:
  "list_all (\<lambda>c. Evaluate G c pd = Some True) cs \<Longrightarrow> Evaluate G c pd = Some False \<Longrightarrow>
   MatchesPod_loop G (cs @ c # rest) pd = Some False"
  by (induction cs) auto

lemma FilterMenuItems_loop_nil_pod:
  "FilterMenuItems_loop G acc items None =
     Some (acc @ filter (\<lambda>item. Conditions (Filters item) = []) items)"
  by (induction items arbitrary: acc) auto

text \<open>
  C2: \<^verbatim>\<open>MatchesPod\<close> is the conjunction of \<^verbatim>\<open>Evaluate\<close> over the conditions of
  the entry, in their order: on compiled conditions it returns whether all of them
  evaluate to true; it returns false at the first condition that evaluates to false,
  whatever follows it (the conditions after it are not evaluated, so not even a
  condition that was never compiled can make the call panic); an entry without
  conditions matches every record, the nil one too. With a nil pod
  \<^verbatim>\<open>FilterMenuItems\<close> keeps exactly the entries without conditions: an entry with a
  condition is left out whatever the condition is, inverted or not.
\<close>

theorem MatchesPod_conjunction:
  "(list_all compiled (Conditions (Filters item)) \<longrightarrow>
      MatchesPod G item (Some p) =
        Some (list_all (\<lambda>c. Evaluate G c (Some p) = Some True) (Conditions (Filters item))))
   \<and> (Conditions (Filters item) = cs @ c # rest
        \<and> list_all (\<lambda>c. Evaluate G c pd = Some True) cs \<and> Evaluate G c pd = Some False \<longrightarrow>
      MatchesPod G item pd = Some False)
   \<and> (Conditions (Filters item) = [] \<longrightarrow> MatchesPod G item pd = Some True)
   \<and> FilterMenuItems G items None =
       Some (filter (\<lambda>item. Conditions (Filters item) = []) items)"
  by (simp add: MatchesPod_def MatchesPod_loop_compiled MatchesPod_loop_short_circuit
      FilterMenuItems_def FilterMenuItems_loop_nil_pod)

theorem MatchesPod_conjunction_witness:
  "MatchesPod example_std
     (example_item ''test'' ''http://test''
        [example_condition ''metadata.labels'' ''app'' ''nginx'' False,
         example_condition ''status.phase'' [] ''Pending'' False,
         uncompiled ''spec.nodeName'' [] ''prod-.*'' False] [])
     (Some podNginxProd) = Some False
   \<and> MatchesPod example_std (example_item ''Always'' ''http://c'' [] []) None = Some True
   \<and> MatchesPod example_std
       (example_item ''test'' ''http://test''
          [example_condition ''metadata.labels'' ''app'' ''nginx'' False,
           example_condition ''metadata.labels'' ''env'' ''production'' False] [])
       (Some podNginxProd) = Some True"
proof -
  let ?a = "example_condition ''metadata.labels'' ''app'' ''nginx'' False"
  let ?b = "example_condition ''status.phase'' [] ''Pending'' False"
  let ?u = "uncompiled ''spec.nodeName'' [] ''prod-.*'' False"
  let ?e = "example_condition ''metadata.labels'' ''env'' ''production'' False"
  let ?item = "example_item ''test'' ''http://test'' [?a, ?b, ?u] []"
  let ?item2 = "example_item ''test'' ''http://test'' [?a, ?e] []"
  let ?always = "example_item ''Always'' ''http://c'' [] []"
  have cs: "Conditions (Filters ?item) = [?a] @ ?b # [?u]"
    by (simp add: example_item_def)
  have a: "Evaluate example_std ?a (Some podNginxProd) = Some True"
    by code_simp
  have b: "Evaluate example_std ?b (Some podNginxProd) = Some False"
    by code_simp
  have e: "Evaluate example_std ?e (Some podNginxProd) = Some True"
    by code_simp
  have comp: "list_all compiled (Conditions (Filters ?item2))"
    by code_simp
  have cs2: "Conditions (Filters ?item2) = [?a, ?e]"
    by (simp add: example_item_def)
  have none: "Conditions (Filters ?always) = []"
    by (simp add: example_item_def)
  have "MatchesPod example_std ?item (Some podNginxProd) = Some False"
    using MatchesPod_conjunction [of ?item example_std podNginxProd "[?a]" ?b "[?u]" "Some podNginxProd" "[]"]
      cs a b by simp
  moreover have "MatchesPod example_std ?always None = Some True"
    using MatchesPod_conjunction [of ?always example_std podNginxProd "[]" ?b "[]" None "[]"] none
    by blast
  moreover have "MatchesPod example_std ?item2 (Some podNginxProd) = Some True"
    using MatchesPod_conjunction [of ?item2 example_std podNginxProd "[]" ?b "[]" None "[]"]
      comp a e unfolding cs2 by simp
  ultimately show ?thesis by blast
qed

section \<open>Filtering\<close>

lemma FilterMenuItems_loop_filter:
  "FilterMenuItems_loop G acc items pd = Some ys \<Longrightarrow>
   ys = acc @ filter (\<lambda>item. if pd = None then Conditions (Filters item) = []
                              else MatchesPod G item pd = Some True) items"
proof (induction items arbitrary: acc)
  case Nil
  then show ?case by simp
next
  case (Cons item items)
  show ?case
  proof (cases "pd = None")
    case True
    with Cons.prems show ?thesis
      by (simp add: FilterMenuItems_loop_nil_pod)
  next
    case False
    with Cons.prems Cons.IH [of "acc @ [item]"] Cons.IH [of acc] show ?thesis
      by (auto split: option.splits bool.splits)
  qed
qed

lemma MatchesPod_total:
  "list_all compiled (Conditions (Filters item)) \<Longrightarrow> \<exists>b. MatchesPod G item (Some p) = Some b"
  by (simp add: MatchesPod_def MatchesPod_loop_compiled)

lemma FilterMenuItems_loop_total:
  "list_all (\<lambda>item. list_all compiled (Conditions (Filters item))) items \<Longrightarrow>
   \<exists>ys. FilterMenuItems_loop G acc items (Some p) = Some ys"
proof (induction items arbitrary: acc)
  case Nil
  show ?case by simp
next
  case (Cons item items)
  then obtain b where "MatchesPod G item (Some p) = Some b"
    using MatchesPod_total [of item G p] by auto
  with Cons show ?case by (cases b) auto
qed

text \<open>
  C9: what \<^verbatim>\<open>FilterMenuItems\<close> returns is a subsequence of its input: the entries
  that pass the test of the loop (no condition, for the nil pod; \<^verbatim>\<open>MatchesPod\<close>
  otherwise), each once, in the order of the input. It returns for the nil pod and for
  every pod when the conditions are compiled.
\<close>

theorem FilterMenuItems_subseq:
  "(FilterMenuItems G items pd = Some ys \<longrightarrow>
      subseq ys items
      \<and> ys = filter (\<lambda>item. if pd = None then Conditions (Filters item) = []
                             else MatchesPod G item pd = Some True) items)
   \<and> (pd = None \<or> list_all (\<lambda>item. list_all compiled (Conditions (Filters item))) items \<longrightarrow>
        (\<exists>zs. FilterMenuItems G items pd = Some zs))"
proof -
  have "FilterMenuItems G items pd = Some ys \<longrightarrow>
      subseq ys items
      \<and> ys = filter (\<lambda>item. if pd = None then Conditions (Filters item) = []
                             else MatchesPod G item pd = Some True) items"
    using FilterMenuItems_loop_filter [of G "[]" items pd ys]
    by (auto simp: FilterMenuItems_def)
  moreover have "pd = None \<or> list_all (\<lambda>item. list_all compiled (Conditions (Filters item))) items \<longrightarrow>
        (\<exists>zs. FilterMenuItems G items pd = Some zs)"
    using FilterMenuItems_loop_total [of items G "[]"]
    by (cases pd) (auto simp: FilterMenuItems_def FilterMenuItems_loop_nil_pod)
  ultimately show ?thesis by blast
qed

theorem FilterMenuItems_subseq_witness:
  "subseq [example_items ! 0, example_items ! 2] example_items
   \<and> FilterMenuItems example_std example_items (Some podNginxProd)
       = Some [example_items ! 0, example_items ! 2]
   \<and> (\<exists>zs. FilterMenuItems example_std example_items None = Some zs)"
proof -
  have r: "FilterMenuItems example_std example_items (Some podNginxProd)
      = Some [example_items ! 0, example_items ! 2]"
    by code_simp
  have "subseq [example_items ! 0, example_items ! 2] example_items"
    using FilterMenuItems_subseq [of example_std example_items "Some podNginxProd"
        "[example_items ! 0, example_items ! 2]"] r
    by blast
  moreover have "\<exists>zs. FilterMenuItems example_std example_items None = Some zs"
    using FilterMenuItems_subseq [of example_std example_items None "[]"] by blast
  ultimately show ?thesis using r by blast
qed

section \<open>Validation\<close>

lemma validate_condition_error:
  "snd (validate_condition G i title j c) = condition_error G i title j c"
  by (simp add: validate_condition_def condition_error_def pattern_or_default_def Let_def
      split: sum.splits)

lemma validate_conditions_error:
  "snd (validate_conditions G i title j cs) = first_error (condition_error G i title) j cs"
proof (induction cs arbitrary: j)
  case Nil
  show ?case by simp
next
  case (Cons c cs)
  show ?case
    using validate_condition_error [of G i title j c] Cons.IH [of "Suc j"]
    by (cases "validate_condition G i title j c") (auto split: option.splits prod.splits)
qed

lemma validate_templateVars_error:
  "validate_templateVars i title j tvs = first_error (templateVar_error i title) j tvs"
  by (induction tvs arbitrary: j) (auto simp: templateVar_error_def)

lemma validate_item_error: "snd (validate_item G i item) = item_error G i item"
  using validate_conditions_error [of G i "Title item" 0 "Conditions (Filters item)"]
  by (cases "validate_conditions G i (Title item) 0 (Conditions (Filters item))")
     (auto simp: validate_item_def item_error_def validate_templateVars_error split: option.splits)

lemma validate_items_error:
  "snd (validate_items G i items) = first_error (item_error G) i items"
proof (induction items arbitrary: i)
  case Nil
  show ?case by simp
next
  case (Cons item items)
  show ?case
    using validate_item_error [of G i item] Cons.IH [of "Suc i"]
    by (cases "validate_item G i item") (auto split: option.splits prod.splits)
qed

lemma first_error_None:
  assumes "\<And>n x. f n x = None \<longleftrightarrow> P x"
  shows "first_error f n xs = None \<longleftrightarrow> list_all P xs"
proof (induction xs arbitrary: n)
  case Nil
  show ?case by simp
next
  case (Cons x xs)
  show ?case
    using Cons.IH [of "Suc n"] assms [of n x] by (cases "f n x") auto
qed

lemma first_error_append:
  assumes "\<And>n x. f n x = None \<longleftrightarrow> P x" and "list_all P pre"
  shows "first_error f n (pre @ rest) = first_error f (n + length pre) rest"
  using assms(2)
proof (induction pre arbitrary: n)
  case Nil
  show ?case by simp
next
  case (Cons x pre)
  then show ?case
    using Cons.IH [of "Suc n"] assms(1) [of n x] by (cases "f n x") auto
qed

lemma condition_error_None: "condition_error G i title j c = None \<longleftrightarrow> condition_ok G c"
  by (auto simp: condition_error_def condition_ok_def compiles_def split: sum.splits)

lemma templateVar_error_None: "templateVar_error i title j tv = None \<longleftrightarrow> templateVar_ok tv"
  by (auto simp: templateVar_error_def templateVar_ok_def)

lemma item_error_None: "item_error G i item = None \<longleftrightarrow> item_ok G item"
  using first_error_None [of "condition_error G i (Title item)" "condition_ok G" 0
      "Conditions (Filters item)"]
    first_error_None [of "templateVar_error i (Title item)" templateVar_ok 0 "TemplateVars item"]
  by (auto simp: item_error_def item_ok_def condition_error_None templateVar_error_None
      split: option.splits)

lemma ValidateConfig_error:
  "snd (ValidateConfig G cfg) =
     (if MenuItems cfg = [] then Some NoMenuItems
      else first_error (item_error G) 0 (MenuItems cfg))"
  using validate_items_error [of G 0 "MenuItems cfg"]
  by (cases "validate_items G 0 (MenuItems cfg)") (auto simp: ValidateConfig_def)

lemma validate_items_append:
  "list_all (item_ok G) pre \<Longrightarrow>
   validate_items G i (pre @ rest) =
     (fst (validate_items G i pre) @ fst (validate_items G (i + length pre) rest),
      snd (validate_items G (i + length pre) rest))"
proof (induction pre arbitrary: i)
  case Nil
  show ?case by simp
next
  case (Cons item pre)
  then have ok: "snd (validate_item G i item) = None"
    by (simp add: validate_item_error item_error_None)
  from Cons have IH: "validate_items G (Suc i) (pre @ rest) =
     (fst (validate_items G (Suc i) pre) @ fst (validate_items G (Suc i + length pre) rest),
      snd (validate_items G (Suc i + length pre) rest))"
    by simp
  show ?case
    using ok IH by (cases "validate_item G i item") (simp split: prod.splits)
qed

lemma validate_items_length: "length (fst (validate_items G i items)) = length items"
proof (induction items arbitrary: i)
  case Nil
  show ?case by simp
next
  case (Cons item items)
  show ?case
    using Cons.IH [of "Suc i"]
    by (cases "validate_item G i item") (auto split: option.splits prod.splits)
qed

lemma validate_items_halts:
  assumes "list_all (item_ok G) pre" and "\<not> item_ok G bad"
  shows "drop (Suc (length pre)) (fst (validate_items G i (pre @ bad # post))) = post"
proof -
  have "snd (validate_item G (i + length pre) bad) \<noteq> None"
    using assms(2) by (simp add: validate_item_error item_error_None)
  then have "fst (validate_items G (i + length pre) (bad # post))
      = fst (validate_item G (i + length pre) bad) # post"
    by (cases "validate_item G (i + length pre) bad") auto
  then show ?thesis
    using validate_items_append [OF assms(1), of i "bad # post"]
    by (simp add: validate_items_length)
qed

text \<open>
  C6: the error that \<^verbatim>\<open>ValidateConfig\<close> returns is the error for an empty list of
  entries, or else the first error in the order of the entries, the error of an entry
  being the first of: an empty title, an empty url, the first error among its conditions
  in their order (an empty path, a key pattern and then a value pattern that does not
  compile after the default \<^verbatim>\<open>.*\<close> has replaced an empty pattern and the anchors
  were added), and the first error among its template variables (an empty path, an empty
  urlAppend). An entry has no error exactly when it passes all these checks, and
  \<^verbatim>\<open>ValidateConfig\<close> returns no error exactly when there is an entry and every
  entry passes. At the first entry that fails it returns that entry's error and leaves
  the entries after it as they were.
\<close>

theorem ValidateConfig_first_error:
  "snd (ValidateConfig G cfg) =
     (if MenuItems cfg = [] then Some NoMenuItems
      else first_error (item_error G) 0 (MenuItems cfg))
   \<and> (item_error G i item = None \<longleftrightarrow> item_ok G item)
   \<and> (snd (ValidateConfig G cfg) = None
        \<longleftrightarrow> MenuItems cfg \<noteq> [] \<and> list_all (item_ok G) (MenuItems cfg))
   \<and> (MenuItems cfg = pre @ bad # post \<and> list_all (item_ok G) pre \<and> \<not> item_ok G bad \<longrightarrow>
        snd (ValidateConfig G cfg) = item_error G (length pre) bad
        \<and> item_error G (length pre) bad \<noteq> None
        \<and> drop (Suc (length pre)) (MenuItems (fst (ValidateConfig G cfg))) = post)"
proof -
  have none: "snd (ValidateConfig G cfg) = None
        \<longleftrightarrow> MenuItems cfg \<noteq> [] \<and> list_all (item_ok G) (MenuItems cfg)"
    using first_error_None [of "item_error G" "item_ok G" 0 "MenuItems cfg"]
    by (simp add: ValidateConfig_error item_error_None)
  have first: "MenuItems cfg = pre @ bad # post \<and> list_all (item_ok G) pre \<and> \<not> item_ok G bad \<longrightarrow>
        snd (ValidateConfig G cfg) = item_error G (length pre) bad
        \<and> item_error G (length pre) bad \<noteq> None
        \<and> drop (Suc (length pre)) (MenuItems (fst (ValidateConfig G cfg))) = post"
  proof (intro impI, elim conjE)
    assume items: "MenuItems cfg = pre @ bad # post"
      and pre: "list_all (item_ok G) pre" and bad: "\<not> item_ok G bad"
    have e: "item_error G (length pre) bad \<noteq> None"
      using bad by (simp add: item_error_None)
    have "first_error (item_error G) 0 (pre @ bad # post) = item_error G (length pre) bad"
      using first_error_append [of "item_error G" "item_ok G" pre 0 "bad # post"] pre e
      by (cases "item_error G (length pre) bad") (auto simp: item_error_None)
    moreover have "MenuItems (fst (ValidateConfig G cfg)) = fst (validate_items G 0 (pre @ bad # post))"
      using items by (simp add: ValidateConfig_def split: prod.splits)
    ultimately show "snd (ValidateConfig G cfg) = item_error G (length pre) bad
        \<and> item_error G (length pre) bad \<noteq> None
        \<and> drop (Suc (length pre)) (MenuItems (fst (ValidateConfig G cfg))) = post"
      using items e validate_items_halts [OF pre bad, of 0 post]
      by (simp add: ValidateConfig_error)
  qed
  show ?thesis
    using none first by (simp add: ValidateConfig_error item_error_None)
qed


theorem ValidateConfig_first_error_witness:
  "snd (ValidateConfig example_std example_config) = None
   \<and> snd (ValidateConfig example_std bad_config)
       = Some (InvalidKeyPattern 1 ''Broken'' 1 ''[invalid'' ''error parsing regexp'')
   \<and> drop 2 (MenuItems (fst (ValidateConfig example_std bad_config)))
       = [example_item [] [] [uncompiled ''spec.nodeName'' [] [] False] []]"
proof -
  let ?pre = "[example_item ''Matches'' ''http://a''
           [uncompiled ''metadata.labels'' [] ''nginx'' False] []]"
  let ?bad = "example_item ''Broken'' ''http://b''
           [uncompiled ''status.phase'' [] [] True,
            uncompiled ''metadata.labels'' ''[invalid'' [] False]
           [\<lparr>tvPath = [], URLAppend = ''?x=$VALUE''\<rparr>]"
  let ?post = "[example_item [] [] [uncompiled ''spec.nodeName'' [] [] False] []]"
  have ok: "MenuItems example_config \<noteq> [] \<and> list_all (item_ok example_std) (MenuItems example_config)"
    by code_simp
  have items: "MenuItems bad_config = ?pre @ ?bad # ?post"
    by (simp add: bad_config_def)
  have pre: "list_all (item_ok example_std) ?pre"
    by code_simp
  have bad: "\<not> item_ok example_std ?bad"
    by code_simp
  have e: "item_error example_std 1 ?bad
      = Some (InvalidKeyPattern 1 ''Broken'' 1 ''[invalid'' ''error parsing regexp'')"
    by code_simp
  have "snd (ValidateConfig example_std example_config) = None"
    using ValidateConfig_first_error [of example_std example_config 0 ?bad ?pre ?bad ?post] ok
    by blast
  moreover have "snd (ValidateConfig example_std bad_config) = item_error example_std (length ?pre) ?bad
     \<and> drop (Suc (length ?pre)) (MenuItems (fst (ValidateConfig example_std bad_config))) = ?post"
    using ValidateConfig_first_error [of example_std bad_config 0 ?bad ?pre ?bad ?post]
      items pre bad
    by blast
  moreover have "length ?pre = 1" and "Suc (length ?pre) = 2"
    by simp_all
  ultimately show ?thesis using e by metis
qed

section \<open>What validation changes\<close>

lemma condition_frame_refl: "condition_frame G c c"
  by (simp add: condition_frame_def)

lemma item_frame_refl: "item_frame G item item"
  by (simp add: item_frame_def list_all2_refl condition_frame_refl)

lemma validate_condition_frame: "condition_frame G c (fst (validate_condition G i title j c))"
  by (simp add: validate_condition_def condition_frame_def pattern_or_default_def stored_def
      Let_def split: sum.splits)

lemma validate_condition_validated:
  "snd (validate_condition G i title j c) = None \<Longrightarrow>
   validated_condition G c (fst (validate_condition G i title j c))"
  by (simp add: validate_condition_def validated_condition_def condition_frame_def
      pattern_or_default_def stored_def Let_def split: sum.splits if_splits)

lemma validate_conditions_frame:
  "list_all2 (condition_frame G) cs (fst (validate_conditions G i title j cs))"
proof (induction cs arbitrary: j)
  case Nil
  show ?case by simp
next
  case (Cons c cs)
  show ?case
    using validate_condition_frame [of G c i title j] Cons.IH [of "Suc j"]
    by (cases "validate_condition G i title j c")
       (auto simp: list_all2_refl condition_frame_refl split: option.splits prod.splits)
qed

lemma validate_conditions_validated:
  "snd (validate_conditions G i title j cs) = None \<Longrightarrow>
   list_all2 (validated_condition G) cs (fst (validate_conditions G i title j cs))"
proof (induction cs arbitrary: j)
  case Nil
  show ?case by simp
next
  case (Cons c cs)
  obtain c' e where vc: "validate_condition G i title j c = (c', e)"
    by (cases "validate_condition G i title j c")
  obtain cs' e' where vcs: "validate_conditions G i title (Suc j) cs = (cs', e')"
    by (cases "validate_conditions G i title (Suc j) cs")
  from Cons.prems vc vcs have none: "e = None" "e' = None"
    by (auto split: option.splits)
  have "validated_condition G c c'"
    using validate_condition_validated [of G i title j c] vc none by simp
  moreover have "list_all2 (validated_condition G) cs cs'"
    using Cons.IH [of "Suc j"] vcs none by simp
  ultimately show ?case
    using vc vcs none by simp
qed

lemma validate_item_Conditions:
  "Title item \<noteq> [] \<Longrightarrow> URL item \<noteq> [] \<Longrightarrow>
   fst (validate_item G i item) =
     item\<lparr>Filters := (Filters item)
       \<lparr>Conditions := fst (validate_conditions G i (Title item) 0 (Conditions (Filters item)))\<rparr>\<rparr>"
  by (cases "validate_conditions G i (Title item) 0 (Conditions (Filters item))")
     (auto simp: validate_item_def split: option.splits)

lemma validate_item_frame: "item_frame G item (fst (validate_item G i item))"
proof (cases "Title item = [] \<or> URL item = []")
  case True
  then have "fst (validate_item G i item) = item"
    by (auto simp: validate_item_def)
  then show ?thesis by (simp add: item_frame_refl)
next
  case False
  then show ?thesis
    using validate_conditions_frame [of G "Conditions (Filters item)" i "Title item" 0]
    by (simp add: validate_item_Conditions item_frame_def)
qed

lemma validate_item_validated:
  assumes "snd (validate_item G i item) = None"
  shows "validated_item G item (fst (validate_item G i item))"
proof -
  from assms have ne: "Title item \<noteq> []" "URL item \<noteq> []"
    by (auto simp: validate_item_def split: if_splits)
  from assms ne have "snd (validate_conditions G i (Title item) 0 (Conditions (Filters item))) = None"
    by (cases "validate_conditions G i (Title item) 0 (Conditions (Filters item))")
       (auto simp: validate_item_def split: option.splits)
  then have "list_all2 (validated_condition G) (Conditions (Filters item))
      (fst (validate_conditions G i (Title item) 0 (Conditions (Filters item))))"
    by (rule validate_conditions_validated)
  then show ?thesis
    using validate_item_frame [of G item i] ne
    by (simp add: validated_item_def validate_item_Conditions)
qed

lemma validate_items_frame: "list_all2 (item_frame G) items (fst (validate_items G i items))"
proof (induction items arbitrary: i)
  case Nil
  show ?case by simp
next
  case (Cons item items)
  show ?case
    using validate_item_frame [of G item i] Cons.IH [of "Suc i"]
    by (cases "validate_item G i item")
       (auto simp: list_all2_refl item_frame_refl split: option.splits prod.splits)
qed

lemma validate_items_validated:
  "list_all (item_ok G) items \<Longrightarrow>
   list_all2 (validated_item G) items (fst (validate_items G i items))"
proof (induction items arbitrary: i)
  case Nil
  show ?case by simp
next
  case (Cons item items)
  then have ok: "snd (validate_item G i item) = None"
    by (simp add: validate_item_error item_error_None)
  from Cons have IH: "list_all2 (validated_item G) items (fst (validate_items G (Suc i) items))"
    by simp
  show ?case
    using ok IH validate_item_validated [of G i item]
    by (cases "validate_item G i item") (auto split: prod.splits)
qed

text \<open>
  C10: \<^verbatim>\<open>ValidateConfig\<close> changes nothing but the patterns of the conditions.
  Whether it returns an error or not, the entries after the call are as many as before
  and in the same order, each with its title, description, url and template variables,
  and with as many conditions, each with its path and invert flag; a pattern of a
  condition is as before or \<^verbatim>\<open>.*\<close> in place of the empty pattern, and a compiled
  expression is as before or the expression compiled from the anchored pattern. When it
  returns no error, every condition has its defaults and both compiled expressions, and
  when it returns an error, so has every condition of the entries before the failing one.
\<close>

theorem ValidateConfig_frame:
  "list_all2 (item_frame G) (MenuItems cfg) (MenuItems (fst (ValidateConfig G cfg)))
   \<and> (snd (ValidateConfig G cfg) = None \<longrightarrow>
        list_all2 (validated_item G) (MenuItems cfg) (MenuItems (fst (ValidateConfig G cfg))))
   \<and> (MenuItems cfg = pre @ bad # post \<and> list_all (item_ok G) pre \<and> \<not> item_ok G bad \<longrightarrow>
        list_all2 (validated_item G) pre
          (take (length pre) (MenuItems (fst (ValidateConfig G cfg)))))"
proof -
  have items: "MenuItems (fst (ValidateConfig G cfg)) = fst (validate_items G 0 (MenuItems cfg))"
    by (cases "validate_items G 0 (MenuItems cfg)") (auto simp: ValidateConfig_def)
  have frame: "list_all2 (item_frame G) (MenuItems cfg) (MenuItems (fst (ValidateConfig G cfg)))"
    unfolding items by (rule validate_items_frame)
  have success: "snd (ValidateConfig G cfg) = None \<longrightarrow>
        list_all2 (validated_item G) (MenuItems cfg) (MenuItems (fst (ValidateConfig G cfg)))"
    using first_error_None [of "item_error G" "item_ok G" 0 "MenuItems cfg"]
      validate_items_validated [of G "MenuItems cfg" 0]
    unfolding items by (auto simp: ValidateConfig_error item_error_None split: if_splits)
  have failure: "MenuItems cfg = pre @ bad # post \<and> list_all (item_ok G) pre \<and> \<not> item_ok G bad \<longrightarrow>
        list_all2 (validated_item G) pre
          (take (length pre) (MenuItems (fst (ValidateConfig G cfg))))"
  proof (intro impI, elim conjE)
    assume eq: "MenuItems cfg = pre @ bad # post" and pre: "list_all (item_ok G) pre"
    have "take (length pre) (fst (validate_items G 0 (pre @ bad # post)))
        = fst (validate_items G 0 pre)"
      using validate_items_append [OF pre, of 0 "bad # post"]
      by (simp add: validate_items_length)
    then show "list_all2 (validated_item G) pre
          (take (length pre) (MenuItems (fst (ValidateConfig G cfg))))"
      unfolding items eq using validate_items_validated [OF pre, of 0] by simp
  qed
  show ?thesis using frame success failure by blast
qed

theorem ValidateConfig_frame_witness:
  "list_all2 (item_frame example_std) (MenuItems bad_config)
     (MenuItems (fst (ValidateConfig example_std bad_config)))
   \<and> list_all2 (validated_item example_std) (MenuItems example_config) example_items
   \<and> validated_item example_std
       (example_item ''Matches'' ''http://a'' [uncompiled ''metadata.labels'' [] ''nginx'' False] [])
       (example_item ''Matches'' ''http://a'' [example_condition ''metadata.labels'' [] ''nginx'' False] [])"
proof -
  let ?pre = "[example_item ''Matches'' ''http://a''
           [uncompiled ''metadata.labels'' [] ''nginx'' False] []]"
  let ?bad = "example_item ''Broken'' ''http://b''
           [uncompiled ''status.phase'' [] [] True,
            uncompiled ''metadata.labels'' ''[invalid'' [] False]
           [\<lparr>tvPath = [], URLAppend = ''?x=$VALUE''\<rparr>]"
  let ?post = "[example_item [] [] [uncompiled ''spec.nodeName'' [] [] False] []]"
  have ok: "snd (ValidateConfig example_std example_config) = None"
    by code_simp
  have items: "MenuItems bad_config = ?pre @ ?bad # ?post"
    by (simp add: bad_config_def)
  have pre: "list_all (item_ok example_std) ?pre"
    by code_simp
  have bad: "\<not> item_ok example_std ?bad"
    by code_simp
  have t: "take (length ?pre) (MenuItems (fst (ValidateConfig example_std bad_config)))
      = [example_item ''Matches'' ''http://a'' [example_condition ''metadata.labels'' [] ''nginx'' False] []]"
    by code_simp
  have "list_all2 (validated_item example_std) (MenuItems example_config) example_items"
    using ValidateConfig_frame [of example_std example_config ?pre ?bad ?post] ok
    unfolding example_items_def by blast
  moreover have "list_all2 (item_frame example_std) (MenuItems bad_config)
     (MenuItems (fst (ValidateConfig example_std bad_config)))
     \<and> list_all2 (validated_item example_std) ?pre
          (take (length ?pre) (MenuItems (fst (ValidateConfig example_std bad_config))))"
    using ValidateConfig_frame [of example_std bad_config ?pre ?bad ?post] items pre bad
    by blast
  ultimately show ?thesis unfolding t by simp
qed

section \<open>Stringification\<close>

lemma bitlen_le: "a < 2 ^ b \<Longrightarrow> bitlen a \<le> b"
proof (induction b arbitrary: a)
  case 0
  then have "a = 0" by simp
  then show ?case by (simp add: bitlen.simps [of 0])
next
  case (Suc b)
  show ?case
  proof (cases "a = 0")
    case True
    then show ?thesis by (simp add: bitlen.simps [of 0])
  next
    case False
    from Suc.prems have "a div 2 < 2 ^ b" by simp
    then have "bitlen (a div 2) \<le> b" by (rule Suc.IH)
    with False show ?thesis by (simp add: bitlen.simps [of a])
  qed
qed

lemma bitlen_gt: "a < 2 ^ bitlen a"
proof (induction a rule: bitlen.induct)
  case (1 n)
  show ?case
  proof (cases "n = 0")
    case True
    then show ?thesis by simp
  next
    case False
    with 1 have "n div 2 < 2 ^ bitlen (n div 2)" by simp
    then have "n < 2 * 2 ^ bitlen (n div 2)" by linarith
    with False show ?thesis by (simp add: bitlen.simps [of n])
  qed
qed

lemma round53_dvd: "2 ^ (bitlen a - 53) dvd a \<Longrightarrow> round53 a = a"
  by (auto simp: round53_def Let_def mod_eq_0_iff_dvd)

lemma round53_exact:
  assumes "m < 2 ^ 53"
  shows "round53 (m * 2 ^ e) = m * 2 ^ e"
proof -
  have "m * 2 ^ e < 2 ^ 53 * 2 ^ e"
    using assms by simp
  then have "m * 2 ^ e < 2 ^ (53 + e)"
    by (simp add: power_add)
  then have "bitlen (m * 2 ^ e) \<le> 53 + e"
    by (rule bitlen_le)
  then have "bitlen (m * 2 ^ e) - 53 \<le> e"
    by simp
  then have "(2::nat) ^ (bitlen (m * 2 ^ e) - 53) dvd 2 ^ e"
    by (rule le_imp_power_dvd)
  then have "2 ^ (bitlen (m * 2 ^ e) - 53) dvd m * 2 ^ e"
    by (rule dvd_mult)
  then show ?thesis by (rule round53_dvd)
qed

lemma is_float64_int:
  assumes "is_float64 (of_int n)"
  shows "\<exists>m e. nat \<bar>n\<bar> = m * 2 ^ e \<and> m < 2 ^ 53"
proof -
  from assms obtain m e :: int where m: "\<bar>m\<bar> < 2 ^ 53"
    and eq: "(of_int n :: rat) = of_int m * 2 powi e"
    by (auto simp: is_float64_def)
  show ?thesis
  proof (cases "0 \<le> e")
    case True
    then have "(of_int n :: rat) = of_int (m * 2 ^ nat e)"
      using eq by (simp add: power_int_def)
    then have "n = m * 2 ^ nat e"
      by (simp only: of_int_eq_iff)
    then have "nat \<bar>n\<bar> = nat \<bar>m\<bar> * 2 ^ nat e"
      by (simp add: abs_mult nat_mult_distrib nat_power_eq)
    moreover have "nat \<bar>m\<bar> < 2 ^ 53"
      using m by simp
    ultimately show ?thesis by blast
  next
    case False
    then have "(of_int n :: rat) * 2 ^ nat (- e) = of_int m"
      using eq by (simp add: power_int_def field_simps)
    then have "(of_int (n * 2 ^ nat (- e)) :: rat) = of_int m"
      by simp
    then have "n * 2 ^ nat (- e) = m"
      by (simp only: of_int_eq_iff)
    then have "\<bar>m\<bar> = \<bar>n * 2 ^ nat (- e)\<bar>"
      by simp
    then have "\<bar>m\<bar> = \<bar>n\<bar> * 2 ^ nat (- e)"
      by (simp add: abs_mult)
    moreover have "\<bar>n\<bar> * 1 \<le> \<bar>n\<bar> * 2 ^ nat (- e)"
      by (rule mult_left_mono) simp_all
    ultimately have "\<bar>n\<bar> < 2 ^ 53"
      using m by simp
    then have "nat \<bar>n\<bar> = nat \<bar>n\<bar> * 2 ^ 0 \<and> nat \<bar>n\<bar> < 2 ^ 53"
      by simp
    then show ?thesis by blast
  qed
qed

lemma int64_of_float64_int:
  assumes "- (2 ^ 63) \<le> n" and "n < 2 ^ 63"
  shows "int64_of_float64 G (of_int n) = word_of_int n"
  using assms by (simp add: int64_of_float64_def)

lemma sint_int64:
  assumes "- (2 ^ 63) \<le> n" and "n < 2 ^ 63"
  shows "sint (word_of_int n :: 64 word) = n"
proof -
  have "signed_take_bit 63 n = n"
    using assms by (simp add: signed_take_bit_int_eq_self)
  then show ?thesis by (simp add: sint_sbintrunc')
qed

lemma float64_of_int64_exact:
  assumes "is_float64 (of_int n)" and "- (2 ^ 63) \<le> n" and "n < 2 ^ 63"
  shows "float64_of_int64 (word_of_int n) = of_int n"
proof -
  from is_float64_int [OF assms(1)] obtain m e where "nat \<bar>n\<bar> = m * 2 ^ e" "m < 2 ^ 53"
    by blast
  then have r: "round53 (nat \<bar>n\<bar>) = nat \<bar>n\<bar>"
    by (simp add: round53_exact)
  show ?thesis
  proof (cases "n < 0")
    case True
    then have "\<bar>n\<bar> = - n" by simp
    with r have "round53 (nat (- n)) = nat (- n)" by simp
    with True show ?thesis
      by (simp add: float64_of_int64_def sint_int64 [OF assms(2,3)])
  next
    case False
    then have "\<bar>n\<bar> = n" by simp
    with r have "round53 (nat n) = nat n" by simp
    with False show ?thesis
      by (simp add: float64_of_int64_def sint_int64 [OF assms(2,3)])
  qed
qed

lemma stringify_integral:
  assumes "is_float64 (of_int n)" and "- (2 ^ 63) \<le> n" and "n < 2 ^ 63"
  shows "stringify G (JNum (of_int n)) = decimal_text n"
  using assms
  by (simp add: int64_of_float64_int float64_of_int64_exact Sprintf_d_def decimal_text_def
      sint_int64)


lemma bitlen_numeral [simp]:
  "bitlen 0 = 0"
  "bitlen 1 = 1"
  "bitlen (Suc 0) = 1"
  "bitlen (numeral (Num.Bit0 n)) = Suc (bitlen (numeral n))"
  "bitlen (numeral (Num.Bit1 n)) = Suc (bitlen (numeral n))"
  by (subst bitlen.simps, simp add: bitlen.simps [of 0])+

lemma round53_le:
  assumes "a \<le> 2 ^ 63"
  shows "round53 a \<le> 2 ^ 63"
proof (cases "a = 2 ^ 63")
  case True
  then show ?thesis by (simp add: round53_def Let_def)
next
  case False
  with assms have "a < 2 ^ 63" by simp
  then have bl: "bitlen a \<le> 63" by (rule bitlen_le)
  show ?thesis
  proof (cases "bitlen a \<le> 53")
    case True
    then have "round53 a = a" by (simp add: round53_dvd)
    with assms show ?thesis by simp
  next
    case False
    define k where "k = bitlen a - 53"
    define q where "q = a div 2 ^ k"
    from False have b: "bitlen a = 53 + k" by (simp add: k_def)
    have "a < 2 ^ (53 + k)"
      using bitlen_gt [of a] b by simp
    then have "a < 2 ^ 53 * 2 ^ k"
      by (simp add: power_add)
    then have "q < 2 ^ 53"
      unfolding q_def by (rule less_mult_imp_div_less)
    then have "q + 1 \<le> 2 ^ 53" by simp
    then have "(q + 1) * 2 ^ k \<le> 2 ^ 53 * 2 ^ k"
      by (rule mult_right_mono) simp
    also have "\<dots> = 2 ^ bitlen a"
      by (simp add: b power_add)
    also have "\<dots> \<le> 2 ^ 63"
      using bl by (rule power_increasing) simp
    finally have up: "(q + 1) * 2 ^ k \<le> 2 ^ 63" .
    have "round53 a \<le> (q + 1) * 2 ^ k"
      by (simp add: round53_def Let_def k_def [symmetric] q_def [symmetric])
    with up show ?thesis by simp
  qed
qed

lemma float64_of_int64_bound: "\<bar>float64_of_int64 w\<bar> \<le> 2 ^ 63"
proof -
  have lo: "- (2 ^ 63) \<le> sint w" and hi: "sint w < 2 ^ 63"
    using sint_ge [of w] sint_lt [of w] by simp_all
  show ?thesis
  proof (cases "sint w < 0")
    case True
    with lo have "nat (- sint w) \<le> 2 ^ 63" by simp
    then have "round53 (nat (- sint w)) \<le> 2 ^ 63" by (rule round53_le)
    then have "(of_nat (round53 (nat (- sint w))) :: rat) \<le> of_nat (2 ^ 63)"
      by (simp only: of_nat_le_iff)
    with True show ?thesis by (simp add: float64_of_int64_def)
  next
    case False
    with hi have "nat (sint w) \<le> 2 ^ 63" by simp
    then have "round53 (nat (sint w)) \<le> 2 ^ 63" by (rule round53_le)
    then have "(of_nat (round53 (nat (sint w))) :: rat) \<le> of_nat (2 ^ 63)"
      by (simp only: of_nat_le_iff)
    with False show ?thesis by (simp add: float64_of_int64_def)
  qed
qed

lemma stringify_large:
  assumes "2 ^ 63 < \<bar>x\<bar>"
  shows "stringify G (JNum x) = Sprintf_g G x"
proof -
  have "x \<noteq> float64_of_int64 (int64_of_float64 G x)"
    using float64_of_int64_bound [of "int64_of_float64 G x"] assms by auto
  then show ?thesis by simp
qed

lemma digit_member: "d < 10 \<Longrightarrow> digit d \<in> set ''0123456789''"
  unfolding digit_def by (rule nth_mem) simp

lemma of_char_digit: "d < 10 \<Longrightarrow> of_char (digit d) = 48 + d"
  by (auto simp: digit_def numeral_eq_Suc less_Suc_eq)

lemma decimal_digits: "set (decimal n) \<subseteq> set ''0123456789''"
proof (induction n rule: decimal.induct)
  case (1 n)
  show ?case
  proof (cases "n < 10")
    case True
    then show ?thesis
      using digit_member [of n] by (subst decimal.simps) simp
  next
    case False
    then show ?thesis
      using 1 digit_member [of "n mod 10"] by (subst decimal.simps) simp
  qed
qed

lemma decimal_value_snoc: "decimal_value (s @ [c]) = 10 * decimal_value s + (of_char c - 48)"
  by (simp add: decimal_value_def)

lemma decimal_value_decimal: "decimal_value (decimal n) = n"
proof (induction n rule: decimal.induct)
  case (1 n)
  show ?case
  proof (cases "n < 10")
    case True
    then show ?thesis
      using of_char_digit [of n] by (subst decimal.simps) (simp add: decimal_value_def)
  next
    case False
    then show ?thesis
      using 1 of_char_digit [of "n mod 10"]
      by (subst decimal.simps) (simp add: decimal_value_snoc)
  qed
qed


lemma decimal_lt_10: "n < 10 \<Longrightarrow> decimal n = [digit n]"
  by (subst decimal.simps) simp

lemma decimal_ge_10: "10 \<le> n \<Longrightarrow> decimal n = decimal (n div 10) @ [digit (n mod 10)]"
  by (subst decimal.simps) simp

text \<open>
  C8, as the claim states it, fails on the numbers: an integral number is printed with
  \<^verbatim>\<open>%d\<close> only when it is equal to \<^verbatim>\<open>float64(int64(val))\<close>, and no \<^verbatim>\<open>int64\<close>
  converts back to a number above \<^verbatim>\<open>2^63\<close>. The JSON number \<^verbatim>\<open>1e20\<close> is a
  \<^verbatim>\<open>float64\<close> (\<^verbatim>\<open>5^20 * 2^20\<close>) with an integral value; it is printed with
  \<^verbatim>\<open>%g\<close>, as \<^verbatim>\<open>1e+20\<close>, which has an exponent and is not its decimal text.
\<close>

theorem stringify_integral_exponent:
  "is_float64 (of_int (10 ^ 20))
   \<and> stringify example_std (JNum (of_int (10 ^ 20))) = ''1e+20''
   \<and> decimal_text (10 ^ 20) = ''100000000000000000000''"
proof -
  have "is_float64 (of_int (10 ^ 20))"
    unfolding is_float64_def
    by (rule exI [of _ "5 ^ 20"], rule exI [of _ 20]) simp
  moreover have "stringify example_std (JNum (of_int (10 ^ 20))) = ''1e+20''"
    by (simp add: int64_of_float64_def example_std_def float64_of_int64_def round53_def Let_def)
  moreover have "decimal_text (10 ^ 20) = ''100000000000000000000''"
    by (simp add: decimal_text_def decimal_lt_10 decimal_ge_10 digit_def)
  ultimately show ?thesis by blast
qed

text \<open>
  C8, amended: \<^verbatim>\<open>stringify\<close> maps a string to itself, a boolean to \<^verbatim>\<open>true\<close> or
  \<^verbatim>\<open>false\<close>, nil to the empty string, and every integral-valued number \<open>n\<close> with
  \<^verbatim>\<open>-2^63 <= n < 2^63\<close> to its decimal integer text: an optional minus sign and
  the decimal digits that denote \<open>\<bar>n\<bar>\<close>, with no fraction and no exponent. A number
  of magnitude above \<^verbatim>\<open>2^63\<close>, integral or not, is printed with \<^verbatim>\<open>%g\<close>, whatever
  the conversion to \<^verbatim>\<open>int64\<close> yields out of its range.
\<close>

theorem stringify_cases:
  "stringify G (JStr s) = s
   \<and> stringify G (JBool True) = ''true'' \<and> stringify G (JBool False) = ''false''
   \<and> stringify G JNull = []
   \<and> (is_float64 (of_int n) \<and> - (2 ^ 63) \<le> n \<and> n < 2 ^ 63 \<longrightarrow>
        stringify G (JNum (of_int n)) = decimal_text n)
   \<and> set (decimal k) \<subseteq> set ''0123456789'' \<and> decimal_value (decimal k) = k
   \<and> (2 ^ 63 < \<bar>x\<bar> \<longrightarrow> stringify G (JNum x) = Sprintf_g G x)"
  using stringify_integral [of n G] stringify_large [of x G] decimal_digits [of k]
  by (simp add: decimal_value_decimal)

theorem stringify_cases_witness:
  "stringify example_std (JNum (- 42)) = ''-42''
   \<and> stringify example_std (JNum (2 ^ 64)) = Sprintf_g example_std (2 ^ 64)"
proof -
  have f: "is_float64 (of_int (- 42))"
    unfolding is_float64_def
    by (rule exI [of _ "- 42"], rule exI [of _ 0]) simp
  have r: "- (2 ^ 63) \<le> (- 42 :: int) \<and> (- 42 :: int) < 2 ^ 63"
    by simp
  have b: "2 ^ 63 < \<bar>2 ^ 64 :: rat\<bar>"
    by simp
  have d: "decimal_text (- 42) = ''-42''"
    by (simp add: decimal_text_def decimal_lt_10 decimal_ge_10 digit_def)
  have "stringify example_std (JNum (of_int (- 42))) = decimal_text (- 42)"
    using stringify_cases [of example_std "[]" "- 42" 0 "2 ^ 64"] f r by blast
  moreover have "stringify example_std (JNum (2 ^ 64)) = Sprintf_g example_std (2 ^ 64)"
    using stringify_cases [of example_std "[]" "- 42" 0 "2 ^ 64"] b by blast
  ultimately show ?thesis using d by simp
qed

section \<open>URLs\<close>

lemma ResolveURL_loop_fragments:
  "ResolveURL_loop G url tvs pd = url @ concat (map (fragment G pd) tvs)"
  by (induction tvs arbitrary: url) (auto simp: fragment_def Let_def)

lemma resolve_nil_pod: "resolve G tv None = []"
  by (simp add: resolve_def)

lemma resolve_empty_iff:
  "resolve G tv pd = [] \<longleftrightarrow>
     pd = None
     \<or> (\<exists>p val ok. pd = Some p \<and> ResolvePath p (tvPath tv) = (val, ok)
          \<and> (\<not> ok \<or> stringify G val = []))"
  by (cases pd; cases "ResolvePath (the pd) (tvPath tv)") (auto simp: resolve_def)

lemma ReplaceAll_Nil: "strings_ReplaceAll [] ''$VALUE'' new = []"
  by (simp add: strings_ReplaceAll.simps)

lemma ReplaceAll_placeholder:
  "strings_ReplaceAll (''$VALUE'' @ rest) ''$VALUE'' new = new @ strings_ReplaceAll rest ''$VALUE'' new"
  by (subst strings_ReplaceAll.simps) simp

lemma ReplaceAll_no_dollar:
  "CHR ''$'' \<notin> set piece \<Longrightarrow>
   strings_ReplaceAll (piece @ rest) ''$VALUE'' new = piece @ strings_ReplaceAll rest ''$VALUE'' new"
proof (induction piece)
  case Nil
  show ?case by simp
next
  case (Cons c piece)
  then have "strings_ReplaceAll (c # piece @ rest) ''$VALUE'' new
      = c # strings_ReplaceAll (piece @ rest) ''$VALUE'' new"
    by (subst strings_ReplaceAll.simps) auto
  with Cons show ?case by simp
qed

lemma ReplaceAll_every_occurrence:
  "(\<forall>piece \<in> set pieces. CHR ''$'' \<notin> set piece) \<Longrightarrow>
   strings_ReplaceAll (strings_Join pieces ''$VALUE'') ''$VALUE'' new = strings_Join pieces new"
proof (induction pieces "''$VALUE''" rule: strings_Join.induct)
  case 1
  show ?case by (simp add: ReplaceAll_Nil)
next
  case (2 x)
  then show ?case
    using ReplaceAll_no_dollar [of x "[]" new] by (simp add: ReplaceAll_Nil)
next
  case (3 x y ys)
  then show ?case
    using ReplaceAll_no_dollar [of x "''$VALUE'' @ strings_Join (y # ys) ''$VALUE''" new]
      ReplaceAll_placeholder [of "strings_Join (y # ys) ''$VALUE''" new]
    by simp
qed

lemma fragment_nil_pod: "fragment G None tv = []"
  by (simp only: fragment_def resolve_nil_pod simp_thms if_True)

lemma concat_fragment_nil_pod: "concat (map (fragment G None) tvs) = []"
  by (induction tvs) (simp_all add: fragment_nil_pod)

text \<open>
  C3, as the claim states it, fails in one direction: a fragment is also skipped when the
  path resolves to a value that is neither missing nor null. \<^verbatim>\<open>ResolveURL\<close> tests
  \<^verbatim>\<open>val == ""\<close> on the string that \<^verbatim>\<open>resolve\<close> returns, and the empty string
  stringifies to itself: with the label \<^verbatim>\<open>app\<close> set to \<^verbatim>\<open>""\<close>, the path
  \<^verbatim>\<open>metadata.labels.app\<close> resolves and \<^verbatim>\<open>?app=$VALUE\<close> is not appended.
\<close>

theorem ResolveURL_skips_empty_string:
  "ResolvePath (podNginxProd\<lparr>Parsed := [(''metadata'', JObj [(''labels'', JObj [(''app'', JStr [])])])]\<rparr>)
      ''metadata.labels.app'' = (JStr [], True)
   \<and> ResolveURL example_std
       (example_item ''test'' ''https://example.com'' []
          [\<lparr>tvPath = ''metadata.labels.app'', URLAppend = ''?app=$VALUE''\<rparr>])
       (Some (podNginxProd\<lparr>Parsed := [(''metadata'', JObj [(''labels'', JObj [(''app'', JStr [])])])]\<rparr>))
     = ''https://example.com''"
  by (simp add: ResolvePath_def ResolveURL_def resolve_def example_item_def)

text \<open>
  C3, amended: \<^verbatim>\<open>ResolveURL\<close> returns the url of the entry followed by the fragments
  of its template variables in the order of their declaration. The fragment of a template
  variable is skipped (it is empty, and nothing fails) if and only if the string that
  \<^verbatim>\<open>resolve\<close> returns is empty: there is no pod, or the path does not resolve, or the
  resolved value stringifies to the empty string, as nil does and as the empty string
  does. Otherwise the fragment is \<^verbatim>\<open>urlAppend\<close> with \<^verbatim>\<open>$VALUE\<close> replaced by the
  stringified value, and every occurrence is replaced: a text made of pieces without
  \<^verbatim>\<open>$\<close> joined by \<^verbatim>\<open>$VALUE\<close> becomes the pieces joined by the value. With no pod
  the url is returned unchanged. The string that \<^verbatim>\<open>resolve\<close> returns is the whole
  stringified value that the path resolves to, when it resolves, and the empty string
  when it does not or when there is no pod.
\<close>

theorem ResolveURL_fragments:
  "ResolveURL G item pd = URL item @ concat (map (fragment G pd) (TemplateVars item))
   \<and> ResolveURL G item None = URL item
   \<and> (resolve G tv pd = [] \<longleftrightarrow>
        pd = None
        \<or> (\<exists>p val ok. pd = Some p \<and> ResolvePath p (tvPath tv) = (val, ok)
             \<and> (\<not> ok \<or> stringify G val = [])))
   \<and> stringify G JNull = [] \<and> stringify G (JStr []) = []
   \<and> (resolve G tv pd = [] \<longrightarrow> fragment G pd tv = [])
   \<and> (resolve G tv pd \<noteq> [] \<longrightarrow>
        fragment G pd tv = strings_ReplaceAll (URLAppend tv) ''$VALUE'' (resolve G tv pd))
   \<and> ((\<forall>piece \<in> set pieces. CHR ''$'' \<notin> set piece) \<longrightarrow>
        strings_ReplaceAll (strings_Join pieces ''$VALUE'') ''$VALUE'' new = strings_Join pieces new)
   \<and> (ResolvePath p (tvPath tv) = (v, True) \<longrightarrow> resolve G tv (Some p) = stringify G v)
   \<and> (\<not> snd (ResolvePath p (tvPath tv)) \<longrightarrow> resolve G tv (Some p) = [])
   \<and> resolve G tv None = []"
proof (intro conjI impI)
  show "ResolveURL G item pd = URL item @ concat (map (fragment G pd) (TemplateVars item))"
    by (simp only: ResolveURL_def ResolveURL_loop_fragments)
  show "ResolveURL G item None = URL item"
    by (simp only: ResolveURL_def ResolveURL_loop_fragments concat_fragment_nil_pod append_Nil2)
  show "resolve G tv pd = [] \<longleftrightarrow>
        pd = None
        \<or> (\<exists>p val ok. pd = Some p \<and> ResolvePath p (tvPath tv) = (val, ok)
             \<and> (\<not> ok \<or> stringify G val = []))"
    by (rule resolve_empty_iff)
  show "stringify G JNull = []" by simp
  show "stringify G (JStr []) = []" by simp
  show "fragment G pd tv = []" if "resolve G tv pd = []"
    using that by (simp only: fragment_def simp_thms if_True)
  show "fragment G pd tv = strings_ReplaceAll (URLAppend tv) ''$VALUE'' (resolve G tv pd)"
    if "resolve G tv pd \<noteq> []"
    using that by (simp only: fragment_def simp_thms if_False)
  show "strings_ReplaceAll (strings_Join pieces ''$VALUE'') ''$VALUE'' new = strings_Join pieces new"
    if "\<forall>piece \<in> set pieces. CHR ''$'' \<notin> set piece"
    using that by (rule ReplaceAll_every_occurrence)
  show "resolve G tv (Some p) = stringify G v" if "ResolvePath p (tvPath tv) = (v, True)"
    using that by (simp add: resolve_def)
  show "resolve G tv (Some p) = []" if "\<not> snd (ResolvePath p (tvPath tv))"
    using that by (cases "ResolvePath p (tvPath tv)") (simp add: resolve_def)
  show "resolve G tv None = []"
    by (rule resolve_nil_pod)
qed

theorem ResolveURL_fragments_witness:
  "ResolveURL example_std
     (example_item ''test'' ''https://example.com'' []
        [\<lparr>tvPath = ''metadata.labels.nonexistent'', URLAppend = ''?x=$VALUE''\<rparr>,
         \<lparr>tvPath = ''metadata.labels.app'', URLAppend = ''?app=$VALUE&extra=$VALUE''\<rparr>])
     (Some podNginxProd)
   = ''https://example.com?app=nginx&extra=nginx''
   \<and> strings_ReplaceAll ''?app=$VALUE&extra=$VALUE'' ''$VALUE'' ''nginx'' = ''?app=nginx&extra=nginx''
   \<and> resolve example_std \<lparr>tvPath = ''spec.nodeName'', URLAppend = ''?node=$VALUE''\<rparr>
       (Some podNginxProd) = ''prod-pool-node-01''"
proof -
  let ?tv1 = "\<lparr>tvPath = ''metadata.labels.nonexistent'', URLAppend = ''?x=$VALUE''\<rparr>"
  let ?tv2 = "\<lparr>tvPath = ''metadata.labels.app'', URLAppend = ''?app=$VALUE&extra=$VALUE''\<rparr>"
  let ?tv3 = "\<lparr>tvPath = ''spec.nodeName'', URLAppend = ''?node=$VALUE''\<rparr>"
  let ?item = "example_item ''test'' ''https://example.com'' [] [?tv1, ?tv2]"
  let ?pieces = "[''?app='', ''&extra='', []]"
  have p1: "\<not> snd (ResolvePath podNginxProd (tvPath ?tv1))"
    by (simp add: ResolvePath_def podNginxProd_def)
  have p2: "ResolvePath podNginxProd (tvPath ?tv2) = (JStr ''nginx'', True)"
    by (simp add: ResolvePath_def podNginxProd_def)
  have p3: "ResolvePath podNginxProd (tvPath ?tv3) = (JStr ''prod-pool-node-01'', True)"
    by (simp add: ResolvePath_def podNginxProd_def)
  have r1: "resolve example_std ?tv1 (Some podNginxProd) = []"
    using ResolveURL_fragments [of example_std ?item "Some podNginxProd" ?tv1 "[]" "[]"
        podNginxProd JNull] p1
    by blast
  have "resolve example_std ?tv2 (Some podNginxProd) = stringify example_std (JStr ''nginx'')"
    using ResolveURL_fragments [of example_std ?item "Some podNginxProd" ?tv2 "[]" "[]"
        podNginxProd "JStr ''nginx''"] p2
    by blast
  then have r2: "resolve example_std ?tv2 (Some podNginxProd) = ''nginx''"
    by simp
  have "resolve example_std ?tv3 (Some podNginxProd)
      = stringify example_std (JStr ''prod-pool-node-01'')"
    using ResolveURL_fragments [of example_std ?item "Some podNginxProd" ?tv3 "[]" "[]"
        podNginxProd "JStr ''prod-pool-node-01''"] p3
    by blast
  then have r3: "resolve example_std ?tv3 (Some podNginxProd) = ''prod-pool-node-01''"
    by simp
  have r2': "resolve example_std ?tv2 (Some podNginxProd) \<noteq> []"
    unfolding r2 by simp
  have j: "strings_Join ?pieces ''$VALUE'' = ''?app=$VALUE&extra=$VALUE''"
    by simp
  have j': "strings_Join ?pieces ''nginx'' = ''?app=nginx&extra=nginx''"
    by simp
  have nd: "\<forall>piece \<in> set ?pieces. CHR ''$'' \<notin> set piece"
    by simp
  have "strings_ReplaceAll (strings_Join ?pieces ''$VALUE'') ''$VALUE'' ''nginx''
      = strings_Join ?pieces ''nginx''"
    using ResolveURL_fragments [of example_std ?item "Some podNginxProd" ?tv2 ?pieces "''nginx''"
        podNginxProd JNull] nd
    by blast
  then have rep: "strings_ReplaceAll ''?app=$VALUE&extra=$VALUE'' ''$VALUE'' ''nginx''
      = ''?app=nginx&extra=nginx''"
    unfolding j j' .
  have f1: "fragment example_std (Some podNginxProd) ?tv1 = []"
    using ResolveURL_fragments [of example_std ?item "Some podNginxProd" ?tv1 "[]" "[]"
        podNginxProd JNull] r1
    by blast
  have "fragment example_std (Some podNginxProd) ?tv2
      = strings_ReplaceAll (URLAppend ?tv2) ''$VALUE'' (resolve example_std ?tv2 (Some podNginxProd))"
    using ResolveURL_fragments [of example_std ?item "Some podNginxProd" ?tv2 "[]" "[]"
        podNginxProd JNull] r2'
    by blast
  then have f2: "fragment example_std (Some podNginxProd) ?tv2 = ''?app=nginx&extra=nginx''"
    unfolding r2 using rep by simp
  have "ResolveURL example_std ?item (Some podNginxProd)
      = URL ?item @ concat (map (fragment example_std (Some podNginxProd)) (TemplateVars ?item))"
    using ResolveURL_fragments [of example_std ?item "Some podNginxProd" ?tv2 "[]" "[]"
        podNginxProd JNull]
    by blast
  also have "\<dots> = ''https://example.com?app=nginx&extra=nginx''"
    by (simp add: example_item_def f1 f2)
  finally show ?thesis using rep r3 by blast
qed

section \<open>Anchoring\<close>

text \<open>
  C4 does not hold of the code: \<^verbatim>\<open>anchorPattern\<close> puts \<^verbatim>\<open>^\<close> and \<^verbatim>\<open>$\<close> around
  the text of the source, and alternation binds weaker than concatenation, so in the
  anchored form of \<^verbatim>\<open>app|web\<close>, which is \<^verbatim>\<open>^app|web$\<close>, the first anchor belongs to
  the first alternative only and the second to the last. The compiled expression
  matches \<^verbatim>\<open>application\<close>, which is not in the language of \<^verbatim>\<open>app|web\<close>, and a
  condition with that key pattern passes on a pod whose only label is
  \<^verbatim>\<open>application\<close>.
\<close>

theorem anchorPattern_alternation:
  "anchorPattern ''app|web'' = ''^app|web$''
   \<and> regexp_Compile example_std ''^app|web$'' =
       Inr [[(BeginText, False), (Lit CHR ''a'', False), (Lit CHR ''p'', False),
             (Lit CHR ''p'', False)],
            [(Lit CHR ''w'', False), (Lit CHR ''e'', False), (Lit CHR ''b'', False),
             (EndText, False)]]
   \<and> regexp_MatchString example_std
       [[(BeginText, False), (Lit CHR ''a'', False), (Lit CHR ''p'', False),
         (Lit CHR ''p'', False)],
        [(Lit CHR ''w'', False), (Lit CHR ''e'', False), (Lit CHR ''b'', False),
         (EndText, False)]] ''application''
   \<and> regexp_Compile example_std ''app|web'' =
       Inr [[(Lit CHR ''a'', False), (Lit CHR ''p'', False), (Lit CHR ''p'', False)],
            [(Lit CHR ''w'', False), (Lit CHR ''e'', False), (Lit CHR ''b'', False)]]
   \<and> \<not> whole_match
       [[(Lit CHR ''a'', False), (Lit CHR ''p'', False), (Lit CHR ''p'', False)],
        [(Lit CHR ''w'', False), (Lit CHR ''e'', False), (Lit CHR ''b'', False)]] ''application''
   \<and> Evaluate example_std (example_condition ''metadata.labels'' ''app|web'' [] False)
       (Some (podNginxProd\<lparr>Parsed :=
          [(''metadata'', JObj [(''labels'', JObj [(''application'', JStr ''x'')])])]\<rparr>))
     = Some True"
proof (intro conjI)
  show "anchorPattern ''app|web'' = ''^app|web$''"
    by code_simp
  show "regexp_Compile example_std ''^app|web$'' =
       Inr [[(BeginText, False), (Lit CHR ''a'', False), (Lit CHR ''p'', False),
             (Lit CHR ''p'', False)],
            [(Lit CHR ''w'', False), (Lit CHR ''e'', False), (Lit CHR ''b'', False),
             (EndText, False)]]"
    by code_simp
  show "regexp_MatchString example_std
       [[(BeginText, False), (Lit CHR ''a'', False), (Lit CHR ''p'', False),
         (Lit CHR ''p'', False)],
        [(Lit CHR ''w'', False), (Lit CHR ''e'', False), (Lit CHR ''b'', False),
         (EndText, False)]] ''application''"
    by code_simp
  show "regexp_Compile example_std ''app|web'' =
       Inr [[(Lit CHR ''a'', False), (Lit CHR ''p'', False), (Lit CHR ''p'', False)],
            [(Lit CHR ''w'', False), (Lit CHR ''e'', False), (Lit CHR ''b'', False)]]"
    by code_simp
  show "\<not> whole_match
       [[(Lit CHR ''a'', False), (Lit CHR ''p'', False), (Lit CHR ''p'', False)],
        [(Lit CHR ''w'', False), (Lit CHR ''e'', False), (Lit CHR ''b'', False)]] ''application''"
    by code_simp
  show "Evaluate example_std (example_condition ''metadata.labels'' ''app|web'' [] False)
       (Some (podNginxProd\<lparr>Parsed :=
          [(''metadata'', JObj [(''labels'', JObj [(''application'', JStr ''x'')])])]\<rparr>))
     = Some True"
    by code_simp
qed

end
